theory Spec2Isabelle
  imports Complex_Main "HOL-Library.AList" "HOL-Library.Char_ord" "HOL-Library.List_Lexorder"
begin

section \<open>The event alarm evaluator (aodh/evaluator/event.py)\<close>

text \<open>
  A shallow embedding of \<^verbatim>\<open>aodh/evaluator/event.py\<close>. Python values are a datatype,
  every exception is a value of \<open>pyerr\<close> and a function that can raise returns
  \<open>pyerr + 'a\<close> (\<open>Inl\<close> the exception). The evaluator object (\<^verbatim>\<open>self\<close>) is a record that
  is passed in and returned. Names are the source's, without the leading underscore of
  the private ones.
\<close>

subsection \<open>Python values\<close>

text \<open>
  The values that occur in a decoded notification payload and in an alarm rule, and the
  results of trait normalisation. A float is its exact (finite) value; a datetime is a
  naive UTC time in microseconds; a dict has string keys and is an association list in
  insertion order.
\<close>

datatype pyval =
    VNone
  | VBool bool
  | VInt int
  | VFloat rat
  | VStr string
  | VTime int
  | VList "pyval list"
  | VDict "(string \<times> pyval) list"

datatype pyerr =
    InvalidEvent
  | ValueError
  | TypeError
  | KeyError
  | AttributeError
  | IndexError
  | ReError
  | OtherError string

definition bindE :: "pyerr + 'a \<Rightarrow> ('a \<Rightarrow> pyerr + 'b) \<Rightarrow> pyerr + 'b" where
  "bindE m f = (case m of Inl e \<Rightarrow> Inl e | Inr x \<Rightarrow> f x)"

text \<open>Truth value of an object (\<^verbatim>\<open>not x\<close> is its negation).\<close>

fun truthy :: "pyval \<Rightarrow> bool" where
  "truthy VNone = False"
| "truthy (VBool b) = b"
| "truthy (VInt i) = (i \<noteq> 0)"
| "truthy (VFloat r) = (r \<noteq> 0)"
| "truthy (VStr s) = (s \<noteq> [])"
| "truthy (VTime t) = True"
| "truthy (VList xs) = (xs \<noteq> [])"
| "truthy (VDict d) = (d \<noteq> [])"

text \<open>\<^verbatim>\<open>x.get(key, default)\<close>: only a dict has the method.\<close>

fun py_get :: "pyval \<Rightarrow> string \<Rightarrow> pyval \<Rightarrow> pyerr + pyval" where
  "py_get (VDict d) k dflt = Inr (case map_of d k of None \<Rightarrow> dflt | Some v \<Rightarrow> v)"
| "py_get _ k dflt = Inl AttributeError"

text \<open>\<^verbatim>\<open>x[key]\<close> with a string key: a missing key of a dict is a KeyError, any other
  value refuses the subscript with a TypeError.\<close>

fun py_getitem :: "pyval \<Rightarrow> string \<Rightarrow> pyerr + pyval" where
  "py_getitem (VDict d) k = (case map_of d k of None \<Rightarrow> Inl KeyError | Some v \<Rightarrow> Inr v)"
| "py_getitem _ k = Inl TypeError"

text \<open>\<^verbatim>\<open>x[n]\<close> with an integer index \<open>n \<ge> 0\<close>.\<close>

fun py_index :: "pyval \<Rightarrow> nat \<Rightarrow> pyerr + pyval" where
  "py_index (VList xs) n = (if n < length xs then Inr (xs ! n) else Inl IndexError)"
| "py_index (VStr s) n = (if n < length s then Inr (VStr [s ! n]) else Inl IndexError)"
| "py_index (VDict d) n = Inl KeyError"
| "py_index _ n = Inl TypeError"

text \<open>The items a \<^verbatim>\<open>for\<close> loop takes from a value.\<close>

fun py_iter :: "pyval \<Rightarrow> pyerr + pyval list" where
  "py_iter (VList xs) = Inr xs"
| "py_iter (VStr s) = Inr (map (\<lambda>c. VStr [c]) s)"
| "py_iter (VDict d) = Inr (map (\<lambda>kv. VStr (fst kv)) d)"
| "py_iter _ = Inl TypeError"

text \<open>Numbers compare by value across \<^verbatim>\<open>bool\<close>, \<^verbatim>\<open>int\<close> and \<^verbatim>\<open>float\<close>.\<close>

fun num_of :: "pyval \<Rightarrow> rat option" where
  "num_of (VBool b) = Some (if b then 1 else 0)"
| "num_of (VInt i) = Some (of_int i)"
| "num_of (VFloat r) = Some r"
| "num_of _ = None"

text \<open>\<^verbatim>\<open>a == b\<close>. Values of unrelated types are unequal; nothing raises.\<close>

fun py_eq :: "pyval \<Rightarrow> pyval \<Rightarrow> bool"
  and py_eq_list :: "pyval list \<Rightarrow> pyval list \<Rightarrow> bool"
  and py_eq_items :: "(string \<times> pyval) list \<Rightarrow> (string \<times> pyval) list \<Rightarrow> bool" where
  "py_eq VNone b = (b = VNone)"
| "py_eq (VBool x) b = (num_of b = Some (if x then 1 else 0))"
| "py_eq (VInt i) b = (num_of b = Some (of_int i))"
| "py_eq (VFloat r) b = (num_of b = Some r)"
| "py_eq (VStr s) b = (b = VStr s)"
| "py_eq (VTime t) b = (b = VTime t)"
| "py_eq (VList xs) b = (case b of VList ys \<Rightarrow> py_eq_list xs ys | _ \<Rightarrow> False)"
| "py_eq (VDict d) b =
     (case b of VDict d' \<Rightarrow> length d = length d' \<and> py_eq_items d d' | _ \<Rightarrow> False)"
| "py_eq_list [] ys = (ys = [])"
| "py_eq_list (x # xs) ys =
     (case ys of [] \<Rightarrow> False | y # ys' \<Rightarrow> py_eq x y \<and> py_eq_list xs ys')"
| "py_eq_items [] d' = True"
| "py_eq_items (kv # d) d' =
     (case map_of d' (fst kv) of None \<Rightarrow> False
      | Some w \<Rightarrow> py_eq (snd kv) w \<and> py_eq_items d d')"

text \<open>
  The table of comparators, \<^verbatim>\<open>COMPARATORS\<close>, and the operators of the \<^verbatim>\<open>operator\<close>
  module it holds (Python 3: ordering values of unrelated types is a TypeError, equality
  never raises).
\<close>

datatype comparator = Gt | Lt | Ge | Le | Eq | Ne

definition COMPARATORS :: "string \<rightharpoonup> comparator" where
  "COMPARATORS = map_of
     [(''gt'', Gt), (''lt'', Lt), (''ge'', Ge), (''le'', Le), (''eq'', Eq), (''ne'', Ne)]"

definition ord_op :: "comparator \<Rightarrow> 'a::linorder \<Rightarrow> 'a \<Rightarrow> bool" where
  "ord_op c x y = (case c of Gt \<Rightarrow> y < x | Lt \<Rightarrow> x < y | Ge \<Rightarrow> y \<le> x | Le \<Rightarrow> x \<le> y
                   | Eq \<Rightarrow> x = y | Ne \<Rightarrow> x \<noteq> y)"

fun py_order :: "comparator \<Rightarrow> pyval \<Rightarrow> pyval \<Rightarrow> pyerr + bool"
  and py_order_list :: "comparator \<Rightarrow> pyval list \<Rightarrow> pyval list \<Rightarrow> pyerr + bool" where
  "py_order c (VStr s) b = (case b of VStr s' \<Rightarrow> Inr (ord_op c s s') | _ \<Rightarrow> Inl TypeError)"
| "py_order c (VTime t) b = (case b of VTime t' \<Rightarrow> Inr (ord_op c t t') | _ \<Rightarrow> Inl TypeError)"
| "py_order c (VList xs) b = (case b of VList ys \<Rightarrow> py_order_list c xs ys | _ \<Rightarrow> Inl TypeError)"
| "py_order c (VDict d) b = Inl TypeError"
| "py_order c VNone b = Inl TypeError"
| "py_order c (VBool x) b =
     (case num_of b of Some y \<Rightarrow> Inr (ord_op c (if x then 1 else 0) y) | None \<Rightarrow> Inl TypeError)"
| "py_order c (VInt i) b =
     (case num_of b of Some y \<Rightarrow> Inr (ord_op c (of_int i) y) | None \<Rightarrow> Inl TypeError)"
| "py_order c (VFloat r) b =
     (case num_of b of Some y \<Rightarrow> Inr (ord_op c r y) | None \<Rightarrow> Inl TypeError)"
| "py_order_list c [] ys = Inr (ord_op c (0::nat) (length ys))"
| "py_order_list c (x # xs) ys =
     (case ys of [] \<Rightarrow> Inr (ord_op c (Suc (length xs)) 0)
      | y # ys' \<Rightarrow> if py_eq x y then py_order_list c xs ys' else py_order c x y)"

fun apply_op :: "comparator \<Rightarrow> pyval \<Rightarrow> pyval \<Rightarrow> pyerr + bool" where
  "apply_op Eq a b = Inr (py_eq a b)"
| "apply_op Ne a b = Inr (\<not> py_eq a b)"
| "apply_op c a b = py_order c a b"

text \<open>
  A key of a dict or a member of a set must be hashable; keys that are equal numbers are
  one key (\<^verbatim>\<open>1\<close>, \<^verbatim>\<open>1.0\<close> and \<^verbatim>\<open>True\<close>), which \<open>hkey\<close> normalises.
\<close>

fun hashable :: "pyval \<Rightarrow> bool" where
  "hashable (VList xs) = False"
| "hashable (VDict d) = False"
| "hashable _ = True"

fun hkey :: "pyval \<Rightarrow> pyval" where
  "hkey (VBool b) = VInt (if b then 1 else 0)"
| "hkey (VFloat r) = (if of_int \<lfloor>r\<rfloor> = r then VInt \<lfloor>r\<rfloor> else VFloat r)"
| "hkey v = v"

subsection \<open>Shell patterns: \<^verbatim>\<open>fnmatch.fnmatch\<close>\<close>

text \<open>
  The standard library's \<^verbatim>\<open>fnmatch.translate\<close> turns a pattern into a regular expression
  that must match the whole name: \<^verbatim>\<open>*\<close> is any run of characters, \<^verbatim>\<open>?\<close> any one character,
  \<^verbatim>\<open>[seq]\<close> a character of \<^verbatim>\<open>seq\<close> and \<^verbatim>\<open>[!seq]\<close> one not in it; a \<^verbatim>\<open>[\<close> with no closing
  \<^verbatim>\<open>]\<close> stands for itself. Inside the brackets \<^verbatim>\<open>a-z\<close> is a range, and a range whose ends are
  in the wrong order makes the regular expression compiler raise (Python before 3.9).
  On POSIX \<^verbatim>\<open>os.path.normcase\<close> changes nothing, but refuses what is not a string.
  A \<open>char\<close> here is a byte; the order of bytes is the order of code points.
\<close>

datatype glob = Star | AnyChar | Lit char | CharSet bool "(char \<times> char) list"

fun find_close :: "string \<Rightarrow> (string \<times> string) option" where
  "find_close [] = None"
| "find_close (c # cs) =
     (if c = CHR '']'' then Some ([], cs)
      else (case find_close cs of None \<Rightarrow> None | Some (b, r) \<Rightarrow> Some (c # b, r)))"

definition split_class :: "string \<Rightarrow> (bool \<times> string \<times> string) option" where
  "split_class p =
     (let neg = (p \<noteq> [] \<and> hd p = CHR ''!'');
          p1 = (if neg then tl p else p);
          lead = (p1 \<noteq> [] \<and> hd p1 = CHR '']'');
          p2 = (if lead then tl p1 else p1)
      in case find_close p2 of
           None \<Rightarrow> None
         | Some (b, r) \<Rightarrow> Some (neg, (if lead then CHR '']'' # b else b), r))"

fun class_items :: "string \<Rightarrow> (char \<times> char) list" where
  "class_items (lo # m # hi # rest) =
     (if m = CHR ''-'' then (lo, hi) # class_items rest
      else (lo, lo) # class_items (m # hi # rest))"
| "class_items (x # rest) = (x, x) # class_items rest"
| "class_items [] = []"

lemma find_close_length: "find_close p = Some (b, r) \<Longrightarrow> length r < length p"
  by (induction p arbitrary: b r) (auto split: if_splits option.splits)

lemma split_class_length: "split_class p = Some (n, b, r) \<Longrightarrow> length r < Suc (length p)"
proof -
  assume a: "split_class p = Some (n, b, r)"
  then obtain b' p2 where f: "find_close p2 = Some (b', r)" and l: "length p2 \<le> length p"
    by (auto simp: split_class_def Let_def split: option.splits if_splits)
  from find_close_length [OF f] l show ?thesis by simp
qed

function translate :: "string \<Rightarrow> glob list" where
  "translate [] = []"
| "translate (c # p) =
     (if c = CHR ''*'' then Star # translate p
      else if c = CHR ''?'' then AnyChar # translate p
      else if c = CHR ''['' then
        (case split_class p of
           None \<Rightarrow> Lit CHR ''['' # translate p
         | Some (neg, stuff, rest) \<Rightarrow> CharSet neg (class_items stuff) # translate rest)
      else Lit c # translate p)"
  by pat_completeness auto
termination
  by (relation "measure length") (auto dest: split_class_length)

fun bad_range :: "glob \<Rightarrow> bool" where
  "bad_range (CharSet neg items) = list_ex (\<lambda>(lo, hi). hi < lo) items"
| "bad_range _ = False"

fun glob_char :: "glob \<Rightarrow> char \<Rightarrow> bool" where
  "glob_char (Lit x) c = (x = c)"
| "glob_char (CharSet neg items) c = (list_ex (\<lambda>(lo, hi). lo \<le> c \<and> c \<le> hi) items \<noteq> neg)"
| "glob_char _ c = True"

fun glob_match :: "glob list \<Rightarrow> string \<Rightarrow> bool" where
  "glob_match [] s = (s = [])"
| "glob_match (Star # gs) [] = glob_match gs []"
| "glob_match (Star # gs) (c # cs) = (glob_match gs (c # cs) \<or> glob_match (Star # gs) cs)"
| "glob_match (g # gs) [] = False"
| "glob_match (g # gs) (c # cs) = (glob_char g c \<and> glob_match gs cs)"

fun fnmatch :: "pyval \<Rightarrow> pyval \<Rightarrow> pyerr + bool" where
  "fnmatch (VStr name) (VStr pat) =
     (if list_ex bad_range (translate pat) then Inl ReError
      else Inr (glob_match (translate pat) name))"
| "fnmatch _ _ = Inl TypeError"

subsection \<open>Alarms, the configuration and the collaborators\<close>

text \<open>
  An alarm as the storage hands it out: an object with the attributes the evaluator
  reads. Its rule is the decoded JSON of the alarm definition.
\<close>

record alarm =
  alarm_id :: string
  project_id :: pyval
  state :: string
  repeat_actions :: bool
  rule :: pyval

text \<open>
  Modelled from the spec: the constant \<^verbatim>\<open>ALARM\<close> of the package \<^verbatim>\<open>aodh.evaluator\<close>, whose
  module is not among the sources. The alarm states are \<^verbatim>\<open>ok\<close>, \<^verbatim>\<open>alarm\<close> and
  \<^verbatim>\<open>insufficient data\<close>; \<^verbatim>\<open>ALARM\<close> is the fired one.
\<close>

definition ALARM :: string where
  "ALARM = ''alarm''"

text \<open>
  What the evaluator is given. \<open>event_alarm_cache_ttl\<close> is the option of \<^verbatim>\<open>OPTS\<close>.
  The conversions of the Python library that \<^verbatim>\<open>_sanitize_trait_value\<close> calls are
  parameters: \<open>py_int\<close> is \<^verbatim>\<open>int(value)\<close>, \<open>py_float\<close> is \<^verbatim>\<open>float(value)\<close>, \<open>parse_time\<close> is
  \<^verbatim>\<open>timeutils.normalize_time(timeutils.parse_isotime(value))\<close> and \<open>str_of\<close> is \<^verbatim>\<open>str\<close> on
  what is not a string already. The collaborators answer by the number of the call:
  every call to the clock, to the storage and to the base class takes the next number,
  so that any sequence of answers is some \<open>env\<close>. \<open>utcnow n\<close> is the clock's reading in
  microseconds, \<open>get_alarms n project\<close> the storage's answer to
  \<^verbatim>\<open>get_alarms(enabled=True, alarm_type='event', project=project)\<close>, and
  \<open>base_refresh n alarm state\<close> the exception the base class's \<^verbatim>\<open>_refresh\<close> raises, if any.
\<close>

record env =
  event_alarm_cache_ttl :: int
  py_int :: "pyval \<Rightarrow> pyerr + pyval"
  py_float :: "pyval \<Rightarrow> pyerr + pyval"
  parse_time :: "pyval \<Rightarrow> pyerr + pyval"
  str_of :: "pyval \<Rightarrow> string"
  utcnow :: "nat \<Rightarrow> int"
  get_alarms :: "nat \<Rightarrow> pyval \<Rightarrow> pyerr + alarm list"
  base_refresh :: "nat \<Rightarrow> alarm \<Rightarrow> string \<Rightarrow> pyerr option"

definition text_type :: "env \<Rightarrow> pyval \<Rightarrow> string" where
  "text_type cf v = (case v of VStr s \<Rightarrow> s | _ \<Rightarrow> str_of cf v)"

subsection \<open>Events\<close>

definition sanitize_trait_value :: "env \<Rightarrow> pyval \<Rightarrow> pyval \<Rightarrow> pyerr + pyval" where
  "sanitize_trait_value cf v trait_type =
     (if py_eq trait_type (VInt 2) \<or> py_eq trait_type (VStr ''integer'') then py_int cf v
      else if py_eq trait_type (VInt 3) \<or> py_eq trait_type (VStr ''float'') then py_float cf v
      else if py_eq trait_type (VInt 4) \<or> py_eq trait_type (VStr ''datetime'')
        then parse_time cf v
      else Inr (VStr (text_type cf v)))"

text \<open>
  The wrapped event. \<open>id'\<close> is the attribute \<^verbatim>\<open>id\<close>; \<open>traits\<close> is a dict in insertion
  order whose keys are kept normalised by \<open>hkey\<close>.
\<close>

record event =
  obj :: pyval
  id' :: pyval
  traits :: "(pyval \<times> pyval) list"
  project :: pyval

definition TRAIT_FIELD :: nat where
  "TRAIT_FIELD = 0"

definition TRAIT_TYPE :: nat where
  "TRAIT_TYPE = 1"

definition TRAIT_VALUE :: nat where
  "TRAIT_VALUE = 2"

text \<open>The messages that \<^verbatim>\<open>_validate\<close> logs before it raises are not modelled.\<close>

definition validate :: "pyval \<Rightarrow> pyerr + unit" where
  "validate ob =
     (if \<not> truthy ob then Inl InvalidEvent
      else bindE (py_get ob ''event_type'' VNone) (\<lambda>et.
        if \<not> truthy et then Inl InvalidEvent
        else bindE (py_get ob ''message_id'' VNone) (\<lambda>m.
          if \<not> truthy m then Inl InvalidEvent else Inr ())))"

text \<open>The body of the loop of \<^verbatim>\<open>_parse_traits\<close>, over the traits still to come.\<close>

fun parse_traits_loop ::
  "env \<Rightarrow> pyval list \<Rightarrow> (pyval \<times> pyval) list \<Rightarrow> pyval
    \<Rightarrow> pyerr + ((pyval \<times> pyval) list \<times> pyval)" where
  "parse_traits_loop cf [] tr pr = Inr (tr, pr)"
| "parse_traits_loop cf (t # ts) tr pr =
     bindE (py_index t TRAIT_FIELD) (\<lambda>k.
     bindE (py_index t TRAIT_VALUE) (\<lambda>raw.
     bindE (py_index t TRAIT_TYPE) (\<lambda>ty.
     bindE (sanitize_trait_value cf raw ty) (\<lambda>v.
       if \<not> hashable k then Inl TypeError
       else parse_traits_loop cf ts (AList.update (hkey k) v tr)
              (if py_eq k (VStr ''tenant_id'') \<or> py_eq k (VStr ''project_id'')
               then v else pr)))))"

definition parse_traits :: "env \<Rightarrow> pyval \<Rightarrow> pyerr + ((pyval \<times> pyval) list \<times> pyval)" where
  "parse_traits cf ob =
     bindE (py_get ob ''traits'' (VList [])) (\<lambda>ts.
     bindE (py_iter ts) (\<lambda>items.
       parse_traits_loop cf items [] (VStr [])))"

text \<open>\<^verbatim>\<open>Event(e)\<close>: the constructor, which returns the event or raises.\<close>

definition Event :: "env \<Rightarrow> pyval \<Rightarrow> pyerr + event" where
  "Event cf e =
     bindE (validate e) (\<lambda>_.
     bindE (py_get e ''message_id'' VNone) (\<lambda>i.
     bindE (parse_traits cf e) (\<lambda>(tr, pr).
       Inr \<lparr>obj = e, id' = i, traits = tr, project = pr\<rparr>)))"

text \<open>\<^verbatim>\<open>field.split('.')\<close>\<close>

fun split_dot :: "string \<Rightarrow> string list" where
  "split_dot [] = [[]]"
| "split_dot (c # cs) =
     (if c = CHR ''.'' then [] # split_dot cs
      else (case split_dot cs of [] \<Rightarrow> [[c]] | w # ws \<Rightarrow> (c # w) # ws))"

fun walk :: "pyval \<Rightarrow> string list \<Rightarrow> pyval" where
  "walk v [] = v"
| "walk v (f # fs) =
     (case v of
        VDict d \<Rightarrow> walk (case map_of d f of None \<Rightarrow> VNone | Some x \<Rightarrow> x) fs
      | _ \<Rightarrow> VNone)"

definition get_value :: "event \<Rightarrow> pyval \<Rightarrow> pyerr + pyval" where
  "get_value ev field =
     (case field of
        VStr f \<Rightarrow>
          if take 7 f = ''traits.''
          then Inr (case map_of (traits ev) (VStr (drop 7 f)) of None \<Rightarrow> VNone | Some v \<Rightarrow> v)
          else Inr (walk (obj ev) (split_dot f))
      | _ \<Rightarrow> Inl AttributeError)"

subsection \<open>The evaluator\<close>

text \<open>
  One entry of \<^verbatim>\<open>self.caches\<close>: the alarms of a project by alarm id, in the order of the
  dict, and the time they were fetched.
\<close>

record cache_entry =
  alarms :: "(string \<times> alarm) list"
  updated :: int

text \<open>
  What the evaluator has done to its collaborators: a fetch from the storage with its
  project, a call of the base class's \<^verbatim>\<open>_refresh\<close> with its arguments (alarm, state,
  reason, reason data).
\<close>

datatype call =
    GetAlarms pyval
  | Refresh alarm string string pyval

text \<open>
  The evaluator object: its caches, with keys normalised by \<open>hkey\<close>; the number the next
  call to a collaborator takes; the calls made so far, oldest first; and what
  \<^verbatim>\<open>LOG.exception\<close> has recorded (alarm id and exception). Debug messages are not modelled.
\<close>

record evaluator =
  caches :: "(pyval \<times> cache_entry) list"
  tick :: nat
  calls :: "call list"
  logged :: "(string \<times> pyerr) list"

text \<open>
  \<^verbatim>\<open>timeutils.is_older_than(before, seconds)\<close> of the library oslo.utils computes
  \<^verbatim>\<open>utcnow() - before > datetime.timedelta(seconds=seconds)\<close>: it reads the clock once.
\<close>

definition is_older_than :: "env \<Rightarrow> evaluator \<Rightarrow> int \<Rightarrow> int \<Rightarrow> bool \<times> evaluator" where
  "is_older_than cf s before seconds =
     (utcnow cf (tick s) - before > seconds * 1000000, s\<lparr>tick := Suc (tick s)\<rparr>)"

text \<open>
  \<^verbatim>\<open>_get_project_alarms\<close>. The first part decides between raising (a project that
  cannot be a key), returning the cached alarms, and going on to the storage; \<open>Inr None\<close>
  is going on.
\<close>

definition get_project_alarms ::
  "env \<Rightarrow> evaluator \<Rightarrow> pyval \<Rightarrow> (pyerr + (string \<times> alarm) list) \<times> evaluator" where
  "get_project_alarms cf s proj =
     (let ttl = event_alarm_cache_ttl cf;
          (early, s1) =
            (if ttl \<noteq> 0 then
               (if \<not> hashable proj then (Inl TypeError, s)
                else (case map_of (caches s) (hkey proj) of
                        None \<Rightarrow> (Inr None, s)
                      | Some entry \<Rightarrow>
                          (let (old, s') = is_older_than cf s (updated entry) ttl
                           in if old
                              then (Inr None,
                                    s'\<lparr>caches := AList.delete (hkey proj) (caches s')\<rparr>)
                              else (Inr (Some (alarms entry)), s'))))
             else (Inr None, s))
      in case early of
           Inl e \<Rightarrow> (Inl e, s1)
         | Inr (Some cached) \<Rightarrow> (Inr cached, s1)
         | Inr None \<Rightarrow>
             (let s2 = s1\<lparr>tick := Suc (tick s1), calls := calls s1 @ [GetAlarms proj]\<rparr>
              in case get_alarms cf (tick s1) proj of
                   Inl e \<Rightarrow> (Inl e, s2)
                 | Inr found \<Rightarrow>
                     (let fetched = fold (\<lambda>a d. AList.update (alarm_id a) a d) found []
                      in if ttl \<noteq> 0
                         then (Inr fetched,
                               s2\<lparr>tick := Suc (tick s2),
                                  caches := AList.update (hkey proj)
                                    \<lparr>alarms = fetched, updated = utcnow cf (tick s2)\<rparr>
                                    (caches s2)\<rparr>)
                         else (Inr fetched, s2))))"

text \<open>
  Modelled from the spec: \<^verbatim>\<open>Evaluator._refresh\<close> of the base class in \<^verbatim>\<open>aodh.evaluator\<close>,
  whose module is not among the sources. It is the refresh collaborator
  \<^verbatim>\<open>refresh(alarm, newState, reason, reasonData)\<close>, which persists the state and triggers
  the notification, and whose failures propagate to the caller. Here it is a recorded
  call that returns or raises as \<open>base_refresh\<close> says.
\<close>

definition Evaluator_refresh ::
  "env \<Rightarrow> evaluator \<Rightarrow> alarm \<Rightarrow> string \<Rightarrow> string \<Rightarrow> pyval \<Rightarrow> (pyerr + unit) \<times> evaluator" where
  "Evaluator_refresh cf s a st reason reason_data =
     ((case base_refresh cf (tick s) a st of Some e \<Rightarrow> Inl e | None \<Rightarrow> Inr ()),
      s\<lparr>tick := Suc (tick s), calls := calls s @ [Refresh a st reason reason_data]\<rparr>)"

text \<open>\<^verbatim>\<open>_refresh\<close>: the base class's, then the state of the cached copy.\<close>

definition refresh ::
  "env \<Rightarrow> evaluator \<Rightarrow> alarm \<Rightarrow> string \<Rightarrow> string \<Rightarrow> pyval \<Rightarrow> (pyerr + unit) \<times> evaluator" where
  "refresh cf s a st reason reason_data =
     (case Evaluator_refresh cf s a st reason reason_data of
        (Inl e, s1) \<Rightarrow> (Inl e, s1)
      | (Inr _, s1) \<Rightarrow>
          (let proj = project_id a in
           if event_alarm_cache_ttl cf \<noteq> 0 then
             (if \<not> hashable proj then (Inl TypeError, s1)
              else (case map_of (caches s1) (hkey proj) of
                      None \<Rightarrow> (Inr (), s1)
                    | Some entry \<Rightarrow>
                        (case map_of (alarms entry) (alarm_id a) of
                           None \<Rightarrow> (Inl KeyError, s1)
                         | Some cached \<Rightarrow>
                             (Inr (),
                              s1\<lparr>caches := AList.update (hkey proj)
                                   (entry\<lparr>alarms := AList.update (alarm_id a)
                                      (cached\<lparr>state := st\<rparr>) (alarms entry)\<rparr>)
                                   (caches s1)\<rparr>))))
           else (Inr (), s1)))"

definition fire_alarm :: "env \<Rightarrow> evaluator \<Rightarrow> alarm \<Rightarrow> event \<Rightarrow> (pyerr + unit) \<times> evaluator" where
  "fire_alarm cf s a ev =
     (let st = ALARM;
          reason = ''Event (message_id='' @ text_type cf (id' ev) @
                   '') hit the query of alarm (id='' @ alarm_id a @ '')'';
          reason_data = VDict [(''type'', VStr ''event''), (''event'', obj ev)]
      in refresh cf s a st reason reason_data)"

text \<open>\<^verbatim>\<open>COMPARATORS[name]\<close>: a name that cannot be hashed is a TypeError, one that
  is not in the table a KeyError.\<close>

definition COMPARATORS_getitem :: "pyval \<Rightarrow> pyerr + comparator" where
  "COMPARATORS_getitem name =
     (if \<not> hashable name then Inl TypeError
      else (case name of
              VStr n \<Rightarrow> (case COMPARATORS n of None \<Rightarrow> Inl KeyError | Some c \<Rightarrow> Inr c)
            | _ \<Rightarrow> Inl KeyError))"

text \<open>The local function \<^verbatim>\<open>_compare\<close> of \<^verbatim>\<open>_evaluate_alarm\<close>.\<close>

definition compare :: "event \<Rightarrow> pyval \<Rightarrow> pyerr + bool" where
  "compare ev condition =
     bindE (py_get condition ''op'' (VStr ''eq'')) (\<lambda>name.
     bindE (COMPARATORS_getitem name) (\<lambda>op.
     bindE (py_getitem condition ''field'') (\<lambda>field.
     bindE (get_value ev field) (\<lambda>v.
     bindE (py_getitem condition ''value'') (\<lambda>cv.
       apply_op op v cv)))))"

text \<open>The loop over the query: \<open>Inr False\<close> is the return at an unmet condition,
  \<open>Inr True\<close> the end of the loop.\<close>

fun conditions :: "event \<Rightarrow> pyval list \<Rightarrow> pyerr + bool" where
  "conditions ev [] = Inr True"
| "conditions ev (condition # rest) =
     (case compare ev condition of
        Inl e \<Rightarrow> Inl e
      | Inr b \<Rightarrow> if \<not> b then Inr False else conditions ev rest)"

definition evaluate_alarm ::
  "env \<Rightarrow> evaluator \<Rightarrow> alarm \<Rightarrow> event \<Rightarrow> (pyerr + unit) \<times> evaluator" where
  "evaluate_alarm cf s a ev =
     (if \<not> repeat_actions a \<and> state a = ALARM then (Inr (), s)
      else
        (case py_getitem (rule a) ''event_type'' of
           Inl e \<Rightarrow> (Inl e, s)
         | Inr event_pattern \<Rightarrow>
        (case py_getitem (obj ev) ''event_type'' of
           Inl e \<Rightarrow> (Inl e, s)
         | Inr event_type \<Rightarrow>
        (case fnmatch event_type event_pattern of
           Inl e \<Rightarrow> (Inl e, s)
         | Inr matched \<Rightarrow>
             if \<not> matched then (Inr (), s)
             else
        (case py_getitem (rule a) ''query'' of
           Inl e \<Rightarrow> (Inl e, s)
         | Inr query \<Rightarrow>
        (case py_iter query of
           Inl e \<Rightarrow> (Inl e, s)
         | Inr qs \<Rightarrow>
        (case conditions ev qs of
           Inl e \<Rightarrow> (Inl e, s)
         | Inr met \<Rightarrow>
             if \<not> met then (Inr (), s)
             else fire_alarm cf s a ev)))))))"

text \<open>
  The inner loop of \<^verbatim>\<open>evaluate_events\<close>, over the items of the project's alarms: an
  exception of one alarm is logged and the loop goes on. The items are those the dict
  had when the loop began: \<^verbatim>\<open>_refresh\<close> adds and removes no key, and the only alarm object
  whose state it sets is the cached one under the project and id of the alarm being
  evaluated, which the loop has taken already (\<^verbatim>\<open>_get_project_alarms\<close> stores every
  alarm under its own id).
\<close>

fun evaluate_alarms ::
  "env \<Rightarrow> evaluator \<Rightarrow> event \<Rightarrow> (string \<times> alarm) list \<Rightarrow> evaluator" where
  "evaluate_alarms cf s ev [] = s"
| "evaluate_alarms cf s ev ((i, a) # rest) =
     (case evaluate_alarm cf s a ev of
        (Inl e, s1) \<Rightarrow> evaluate_alarms cf (s1\<lparr>logged := logged s1 @ [(i, e)]\<rparr>) ev rest
      | (Inr _, s1) \<Rightarrow> evaluate_alarms cf s1 ev rest)"

text \<open>The outer loop of \<^verbatim>\<open>evaluate_events\<close>, over the events still to come.\<close>

fun evaluate_list :: "env \<Rightarrow> evaluator \<Rightarrow> pyval list \<Rightarrow> (pyerr + unit) \<times> evaluator" where
  "evaluate_list cf s [] = (Inr (), s)"
| "evaluate_list cf s (e # es) =
     (case Event cf e of
        Inl err \<Rightarrow> if err = InvalidEvent then evaluate_list cf s es else (Inl err, s)
      | Inr ev \<Rightarrow>
          (case get_project_alarms cf s (project ev) of
             (Inl err, s1) \<Rightarrow> (Inl err, s1)
           | (Inr found, s1) \<Rightarrow> evaluate_list cf (evaluate_alarms cf s1 ev found) es))"

definition evaluate_events :: "env \<Rightarrow> evaluator \<Rightarrow> pyval \<Rightarrow> (pyerr + unit) \<times> evaluator" where
  "evaluate_events cf s events =
     (case events of VList es \<Rightarrow> evaluate_list cf s es | _ \<Rightarrow> evaluate_list cf s [events])"

subsection \<open>A concrete environment and concrete data\<close>

text \<open>
  An environment to run the evaluator on examples. Its conversions cover what the
  examples use: \<^verbatim>\<open>int\<close> of an integer and of a string of decimal digits, \<^verbatim>\<open>float\<close> of a
  number; any other string is a ValueError, as in Python, and any other value a
  TypeError. The clock and the storage are arguments; the storage answers the same at
  every call and the base class's \<^verbatim>\<open>_refresh\<close> never raises.
\<close>

fun digits_value :: "string \<Rightarrow> int \<Rightarrow> int option" where
  "digits_value [] acc = Some acc"
| "digits_value (c # cs) acc =
     (if CHR ''0'' \<le> c \<and> c \<le> CHR ''9''
      then digits_value cs (10 * acc + (of_char c - 48))
      else None)"

fun demo_int :: "pyval \<Rightarrow> pyerr + pyval" where
  "demo_int (VInt i) = Inr (VInt i)"
| "demo_int (VBool b) = Inr (VInt (if b then 1 else 0))"
| "demo_int (VFloat r) = Inr (VInt (if r < 0 then - \<lfloor>- r\<rfloor> else \<lfloor>r\<rfloor>))"
| "demo_int (VStr s) =
     (if s = [] then Inl ValueError
      else (case digits_value s 0 of None \<Rightarrow> Inl ValueError | Some i \<Rightarrow> Inr (VInt i)))"
| "demo_int _ = Inl TypeError"

fun demo_float :: "pyval \<Rightarrow> pyerr + pyval" where
  "demo_float (VInt i) = Inr (VFloat (of_int i))"
| "demo_float (VBool b) = Inr (VFloat (if b then 1 else 0))"
| "demo_float (VFloat r) = Inr (VFloat r)"
| "demo_float (VStr s) = Inl ValueError"
| "demo_float _ = Inl TypeError"

definition demo_env :: "int \<Rightarrow> (nat \<Rightarrow> int) \<Rightarrow> (pyval \<Rightarrow> pyerr + alarm list) \<Rightarrow> env" where
  "demo_env ttl clock storage =
     \<lparr>event_alarm_cache_ttl = ttl,
      py_int = demo_int,
      py_float = demo_float,
      parse_time = (\<lambda>v. Inl ValueError),
      str_of = (\<lambda>v. ''<object>''),
      utcnow = clock,
      get_alarms = (\<lambda>n. storage),
      base_refresh = (\<lambda>n a st. None)\<rparr>"

definition new_evaluator :: evaluator where
  "new_evaluator = \<lparr>caches = [], tick = 0, calls = [], logged = []\<rparr>"

text \<open>The clock of the examples: one second passes between two calls.\<close>

definition seconds_clock :: "nat \<Rightarrow> int" where
  "seconds_clock n = int n * 1000000"

text \<open>The event of the spec's scenario, and others like it.\<close>

definition raw_event :: "string \<Rightarrow> string \<Rightarrow> string \<Rightarrow> string \<Rightarrow> pyval" where
  "raw_event event_type message_id instance tenant =
     VDict [(''event_type'', VStr event_type),
            (''message_id'', VStr message_id),
            (''traits'', VList [VList [VStr ''instance_id'', VInt 1, VStr instance],
                                VList [VStr ''tenant_id'', VInt 1, VStr tenant]])]"

definition delete_event :: pyval where
  "delete_event = raw_event ''compute.instance.delete.end'' ''m1'' ''i-9'' ''p1''"

definition condition :: "string \<Rightarrow> string \<Rightarrow> pyval \<Rightarrow> pyval" where
  "condition field op v = VDict [(''field'', VStr field), (''op'', VStr op), (''value'', v)]"

definition demo_alarm :: "string \<Rightarrow> string \<Rightarrow> string \<Rightarrow> pyval list \<Rightarrow> alarm" where
  "demo_alarm aid st pattern query =
     \<lparr>alarm_id = aid, project_id = VStr ''p1'', state = st, repeat_actions = False,
      rule = VDict [(''event_type'', VStr pattern), (''query'', VList query)]\<rparr>"

text \<open>The alarm of the spec's scenario: its only condition has no \<^verbatim>\<open>op\<close>.\<close>

definition delete_alarm :: alarm where
  "delete_alarm =
     demo_alarm ''a1'' ''ok'' ''compute.instance.delete.*''
       [VDict [(''field'', VStr ''traits.instance_id''), (''value'', VStr ''i-9'')]]"

definition storage_of :: "alarm list \<Rightarrow> pyval \<Rightarrow> pyerr + alarm list" where
  "storage_of found proj = Inr (filter (\<lambda>a. project_id a = proj) found)"

text \<open>What \<^verbatim>\<open>Event\<close> makes of such an event.\<close>

definition wrapped_event :: "string \<Rightarrow> string \<Rightarrow> string \<Rightarrow> string \<Rightarrow> event" where
  "wrapped_event event_type message_id instance tenant =
     \<lparr>obj = raw_event event_type message_id instance tenant, id' = VStr message_id,
      traits = [(VStr ''instance_id'', VStr instance), (VStr ''tenant_id'', VStr tenant)],
      project = VStr tenant\<rparr>"

definition delete_event_wrapped :: event where
  "delete_event_wrapped = wrapped_event ''compute.instance.delete.end'' ''m1'' ''i-9'' ''p1''"

text \<open>
  Alarms of the project \<^verbatim>\<open>p1\<close>: one on the instances with two conditions; one whose
  comparator is given a string and an integer to order; one on the event type itself;
  one whose \<^verbatim>\<open>op\<close> is a list and not a name;
  one whose second condition names an operator that does not exist.
\<close>

definition instance_alarm :: alarm where
  "instance_alarm =
     demo_alarm ''a1'' ''ok'' ''compute.instance.*''
       [condition ''traits.instance_id'' ''eq'' (VStr ''i-9''),
        VDict [(''field'', VStr ''traits.tenant_id''), (''value'', VStr ''p1'')]]"

definition broken_alarm :: alarm where
  "broken_alarm =
     demo_alarm ''a0'' ''ok'' ''compute.instance.delete.*''
       [condition ''traits.instance_id'' ''gt'' (VInt 5)]"

definition type_alarm :: alarm where
  "type_alarm =
     demo_alarm ''a2'' ''ok'' ''compute.*''
       [condition ''event_type'' ''eq'' (VStr ''compute.instance.delete.end'')]"

definition list_op_alarm :: alarm where
  "list_op_alarm =
     demo_alarm ''a4'' ''ok'' ''compute.*''
       [VDict [(''field'', VStr ''traits.instance_id''), (''op'', VList [VStr ''eq'']),
               (''value'', VStr ''i-9'')]]"

definition unknown_op_alarm :: alarm where
  "unknown_op_alarm =
     demo_alarm ''a3'' ''ok'' ''compute.*''
       [condition ''traits.instance_id'' ''eq'' (VStr ''i-9''),
        condition ''traits.instance_id'' ''like'' (VStr ''i'')]"

text \<open>An event of another project, \<^verbatim>\<open>p2\<close>, and an alarm of that project that it meets.\<close>

definition other_event :: pyval where
  "other_event = raw_event ''compute.instance.update'' ''m2'' ''i-7'' ''p2''"

definition other_alarm :: alarm where
  "other_alarm = (demo_alarm ''b1'' ''ok'' ''compute.instance.*'' [])\<lparr>project_id := VStr ''p2''\<rparr>"

text \<open>A storage that is out of order for the project \<^verbatim>\<open>p1\<close> only.\<close>

definition failing_storage :: "pyval \<Rightarrow> pyerr + alarm list" where
  "failing_storage proj =
     (if proj = VStr ''p1'' then Inl (OtherError ''storage unavailable'')
      else storage_of [other_alarm] proj)"

text \<open>An event whose trait \<^verbatim>\<open>count\<close> is declared an integer (type code 2) and is not one.\<close>

definition malformed_event :: pyval where
  "malformed_event =
     VDict [(''event_type'', VStr ''compute.instance.delete.end''),
            (''message_id'', VStr ''m0''),
            (''traits'', VList [VList [VStr ''tenant_id'', VInt 1, VStr ''p2''],
                                VList [VStr ''count'', VInt 2, VStr ''abc'']])]"

text \<open>A clock that stands still, and an evaluator that holds an entry for the project
  \<^verbatim>\<open>p1\<close>, fetched at time 0 when the project had no alarm.\<close>

definition constant_clock :: "int \<Rightarrow> nat \<Rightarrow> int" where
  "constant_clock t n = t"

definition cached_evaluator :: evaluator where
  "cached_evaluator = new_evaluator\<lparr>caches := [(VStr ''p1'', \<lparr>alarms = [], updated = 0\<rparr>)]\<rparr>"

section \<open>Properties\<close>

subsection \<open>The loops\<close>

lemma evaluate_list_append:
  "evaluate_list cf s (xs @ ys) =
     (case evaluate_list cf s xs of
        (Inl e, s') \<Rightarrow> (Inl e, s')
      | (Inr u, s') \<Rightarrow> evaluate_list cf s' ys)"
  by (induction xs arbitrary: s) (auto split: sum.splits prod.splits)

lemma evaluate_alarms_append:
  "evaluate_alarms cf s ev (xs @ ys) = evaluate_alarms cf (evaluate_alarms cf s ev xs) ev ys"
  by (induction xs arbitrary: s) (auto split: sum.splits prod.splits)

subsection \<open>Events that are not valid\<close>

text \<open>A mandatory field is missing when the key is absent, and also when its value is
  empty (\<^verbatim>\<open>None\<close>, an empty string): \<^verbatim>\<open>_validate\<close> tests \<^verbatim>\<open>not self.obj.get(key)\<close>.\<close>

definition missing :: "(string \<times> pyval) list \<Rightarrow> string \<Rightarrow> bool" where
  "missing d k = (case map_of d k of None \<Rightarrow> True | Some v \<Rightarrow> \<not> truthy v)"

lemma validate_invalid:
  assumes "\<not> truthy raw \<or>
           (\<exists>d. raw = VDict d \<and> (missing d ''event_type'' \<or> missing d ''message_id''))"
  shows "validate raw = Inl InvalidEvent"
  using assms
  by (auto simp: validate_def bindE_def missing_def split: option.splits)

lemma Event_validate: "validate raw = Inl err \<Longrightarrow> Event cf raw = Inl err"
  by (simp add: Event_def bindE_def)

text \<open>
  Claim C4. A raw event that is empty or absent, or a dict that lacks its
  \<^verbatim>\<open>event_type\<close> or its \<^verbatim>\<open>message_id\<close>, makes \<^verbatim>\<open>Event\<close> raise InvalidEvent; wherever it
  stands in a batch, \<^verbatim>\<open>evaluate_events\<close> does with the batch what it does with the batch
  without it (no lookup of alarms, no matching for it, and the events after it are
  evaluated); given alone, it leaves the evaluator as it was.
\<close>

theorem invalid_event_excluded:
  assumes "\<not> truthy raw \<or>
           (\<exists>d. raw = VDict d \<and> (missing d ''event_type'' \<or> missing d ''message_id''))"
  shows "Event cf raw = Inl InvalidEvent \<and>
         evaluate_events cf s (VList (pre @ raw # post)) =
           evaluate_events cf s (VList (pre @ post)) \<and>
         evaluate_events cf s raw = (Inr (), s)"
proof -
  have ev: "Event cf raw = Inl InvalidEvent"
    using assms by (intro Event_validate validate_invalid)
  have step: "\<And>t. evaluate_list cf t (raw # post) = evaluate_list cf t post"
    by (simp add: ev)
  have mid: "evaluate_list cf s (pre @ raw # post) = evaluate_list cf s (pre @ post)"
    by (simp only: evaluate_list_append [of cf s pre] step)
  have single: "evaluate_events cf s raw = (Inr (), s)"
  proof (cases raw)
    case (VList xs)
    with assms have "xs = []" by auto
    with VList show ?thesis by (simp add: evaluate_events_def)
  qed (use ev in \<open>simp_all add: evaluate_events_def\<close>)
  from ev mid single show ?thesis by (simp add: evaluate_events_def)
qed

theorem invalid_event_excluded_witness:
  "missing [(''event_type'', VStr ''compute.instance.delete.end'')] ''message_id'' \<and>
   Event (demo_env 60 seconds_clock (storage_of [delete_alarm]))
     (VDict [(''event_type'', VStr ''compute.instance.delete.end'')]) = Inl InvalidEvent \<and>
   evaluate_events (demo_env 60 seconds_clock (storage_of [delete_alarm])) new_evaluator
     (VList ([] @ VDict [(''event_type'', VStr ''compute.instance.delete.end'')] # [delete_event])) =
   evaluate_events (demo_env 60 seconds_clock (storage_of [delete_alarm])) new_evaluator
     (VList ([] @ [delete_event])) \<and>
   calls (snd (evaluate_events (demo_env 60 seconds_clock (storage_of [delete_alarm]))
     new_evaluator (VList [VNone, delete_event]))) \<noteq> []"
proof -
  have m: "missing [(''event_type'', VStr ''compute.instance.delete.end'')] ''message_id''"
    by (simp add: missing_def)
  have h: "\<not> truthy (VDict [(''event_type'', VStr ''compute.instance.delete.end'')]) \<or>
           (\<exists>d. VDict [(''event_type'', VStr ''compute.instance.delete.end'')] = VDict d \<and>
                (missing d ''event_type'' \<or> missing d ''message_id''))"
    using m by simp
  have n: "\<not> truthy VNone \<or>
           (\<exists>d. VNone = VDict d \<and> (missing d ''event_type'' \<or> missing d ''message_id''))"
    by simp
  have run: "calls (snd (evaluate_events (demo_env 60 seconds_clock (storage_of [delete_alarm]))
     new_evaluator (VList ([] @ [delete_event])))) \<noteq> []"
    by code_simp
  show ?thesis
    using m run
      invalid_event_excluded [OF h, of "demo_env 60 seconds_clock (storage_of [delete_alarm])"
        new_evaluator "[]" "[delete_event]"]
      invalid_event_excluded [OF n, of "demo_env 60 seconds_clock (storage_of [delete_alarm])"
        new_evaluator "[]" "[delete_event]"]
    by simp
qed

subsection \<open>The guard of alarms that have fired\<close>

lemma Event_delete_event: "Event (demo_env ttl clock st) delete_event = Inr delete_event_wrapped"
  by (simp add: Event_def validate_def bindE_def parse_traits_def delete_event_def
      raw_event_def TRAIT_FIELD_def TRAIT_TYPE_def TRAIT_VALUE_def sanitize_trait_value_def
      text_type_def demo_env_def delete_event_wrapped_def wrapped_event_def)

text \<open>
  Claim C5. An alarm with \<^verbatim>\<open>repeat_actions\<close> false whose state is already \<^verbatim>\<open>alarm\<close> is
  skipped, whatever the event: \<^verbatim>\<open>_evaluate_alarm\<close> returns with the evaluator as it was, so
  no call of \<^verbatim>\<open>_refresh\<close> is made and neither the cached alarms nor their states change;
  in the loop over a project's alarms it counts for nothing.
\<close>

theorem already_fired_skipped:
  assumes "\<not> repeat_actions a" and "state a = ALARM"
  shows "evaluate_alarm cf s a ev = (Inr (), s) \<and>
         evaluate_alarms cf s ev (before @ (i, a) # rest) =
           evaluate_alarms cf (evaluate_alarms cf s ev before) ev rest"
proof -
  have one: "\<And>t. evaluate_alarm cf t a ev = (Inr (), t)"
    using assms by (simp add: evaluate_alarm_def)
  show ?thesis
    by (simp add: one evaluate_alarms_append)
qed

theorem already_fired_skipped_witness:
  "\<not> repeat_actions (delete_alarm\<lparr>state := ''alarm''\<rparr>) \<and>
   state (delete_alarm\<lparr>state := ''alarm''\<rparr>) = ALARM \<and>
   evaluate_alarm (demo_env 60 seconds_clock (storage_of [])) new_evaluator
     (delete_alarm\<lparr>state := ''alarm''\<rparr>) delete_event_wrapped = (Inr (), new_evaluator) \<and>
   calls (snd (evaluate_alarm (demo_env 60 seconds_clock (storage_of [])) new_evaluator
     delete_alarm delete_event_wrapped)) \<noteq> []"
proof -
  have r: "\<not> repeat_actions (delete_alarm\<lparr>state := ''alarm''\<rparr>)"
    by (simp add: delete_alarm_def demo_alarm_def)
  have f: "state (delete_alarm\<lparr>state := ''alarm''\<rparr>) = ALARM"
    by (simp add: ALARM_def)
  have fires: "calls (snd (evaluate_alarm (demo_env 60 seconds_clock (storage_of []))
     new_evaluator delete_alarm delete_event_wrapped)) \<noteq> []"
    by code_simp
  show ?thesis
    using r f fires already_fired_skipped [OF r f, of "demo_env 60 seconds_clock (storage_of [])"
       new_evaluator delete_event_wrapped]
    by simp
qed

subsection \<open>Exceptions that \<^verbatim>\<open>evaluate_events\<close> does not catch\<close>

text \<open>
  Claim C2, as the code has it. \<^verbatim>\<open>evaluate_events\<close> calls \<^verbatim>\<open>_get_project_alarms\<close> outside
  its \<^verbatim>\<open>try\<close>: an exception raised while the alarms of an event's project are resolved
  (the storage's \<^verbatim>\<open>get_alarms\<close> raising) is not caught. The events before that one have
  been evaluated; \<^verbatim>\<open>evaluate_events\<close> then raises the exception to its caller, and what
  comes after in the batch is not evaluated.
\<close>

theorem storage_error_propagates:
  assumes "evaluate_list cf s before = (Inr (), s1)"
    and "Event cf e = Inr ev"
    and "get_project_alarms cf s1 (project ev) = (Inl err, s2)"
  shows "evaluate_events cf s (VList (before @ e # rest)) = (Inl err, s2)"
  using assms by (simp add: evaluate_events_def evaluate_list_append)

theorem storage_error_propagates_witness:
  "fst (evaluate_events (demo_env 60 seconds_clock failing_storage) new_evaluator
         (VList ([other_event] @ delete_event # [other_event]))) =
     Inl (OtherError ''storage unavailable'') \<and>
   length (calls (snd (evaluate_events (demo_env 60 seconds_clock failing_storage) new_evaluator
         (VList ([other_event] @ delete_event # [other_event]))))) = 3"
proof -
  let ?E = "demo_env 60 seconds_clock failing_storage"
  let ?s1 = "snd (evaluate_list ?E new_evaluator [other_event])"
  let ?s2 = "snd (get_project_alarms ?E ?s1 (project delete_event_wrapped))"
  have h1: "evaluate_list ?E new_evaluator [other_event] = (Inr (), ?s1)"
    by code_simp
  have h2: "Event ?E delete_event = Inr delete_event_wrapped"
    by (rule Event_delete_event)
  have h3: "get_project_alarms ?E ?s1 (project delete_event_wrapped) =
              (Inl (OtherError ''storage unavailable''), ?s2)"
    by code_simp
  have c: "length (calls ?s2) = 3"
    by code_simp
  show ?thesis
    using c storage_error_propagates [OF h1 h2 h3, of "[other_event]"]
    by simp
qed

text \<open>
  Against claim C2 as stated: the storage raises for the project of the first event of
  a batch of two. \<^verbatim>\<open>evaluate_events\<close> raises that exception, and its only call has been
  the fetch for the first project: the second event, which alone is evaluated and
  fires an alarm, is never looked at.
\<close>

theorem storage_error_not_isolated:
  "fst (evaluate_events (demo_env 60 seconds_clock failing_storage) new_evaluator
         (VList [delete_event, other_event])) = Inl (OtherError ''storage unavailable'') \<and>
   calls (snd (evaluate_events (demo_env 60 seconds_clock failing_storage) new_evaluator
         (VList [delete_event, other_event]))) = [GetAlarms (VStr ''p1'')] \<and>
   fst (evaluate_events (demo_env 60 seconds_clock failing_storage) new_evaluator
         (VList [other_event])) = Inr () \<and>
   length (calls (snd (evaluate_events (demo_env 60 seconds_clock failing_storage) new_evaluator
         (VList [other_event])))) = 2"
  by code_simp

lemma parse_traits_loop_append:
  "parse_traits_loop cf (xs @ ys) tr pr =
     bindE (parse_traits_loop cf xs tr pr) (\<lambda>(tr', pr'). parse_traits_loop cf ys tr' pr')"
  by (induction xs arbitrary: tr pr) (auto simp: bindE_def split: sum.splits)

lemma parse_traits_loop_fails:
  assumes "sanitize_trait_value cf v ty = Inl err"
  shows "parse_traits_loop cf (VList (k # ty # v # extra) # later) tr pr = Inl err"
  using assms by (simp add: bindE_def TRAIT_FIELD_def TRAIT_VALUE_def TRAIT_TYPE_def)

text \<open>
  Claim C3, as the code has it. Take a raw event that passes \<^verbatim>\<open>_validate\<close> and has a trait
  (name, type code, value) whose value the normalisation of its type code refuses, the
  traits before it being in order. \<^verbatim>\<open>Event\<close> then raises the exception of the conversion
  itself (a ValueError or a TypeError of \<^verbatim>\<open>int\<close>, \<^verbatim>\<open>float\<close> or the time parser, which is
  not InvalidEvent), so no event is built. \<^verbatim>\<open>evaluate_events\<close> catches InvalidEvent only:
  after the events before this one have been evaluated, it raises the exception to its
  caller and evaluates nothing more of the batch.
\<close>

theorem malformed_trait_propagates:
  assumes "validate (VDict d) = Inr ()"
    and "map_of d ''traits'' = Some (VList (good @ VList (k # ty # v # extra) # later))"
    and "parse_traits_loop cf good [] (VStr []) = Inr (tr, pr)"
    and "sanitize_trait_value cf v ty = Inl err"
    and "err \<noteq> InvalidEvent"
    and "evaluate_list cf s before = (Inr (), s1)"
  shows "Event cf (VDict d) = Inl err \<and>
         evaluate_events cf s (VList (before @ VDict d # rest)) = (Inl err, s1)"
proof -
  have "parse_traits cf (VDict d) = Inl err"
    using assms(2,3) parse_traits_loop_fails [OF assms(4)]
    by (simp add: parse_traits_def bindE_def parse_traits_loop_append)
  then have ev: "Event cf (VDict d) = Inl err"
    using assms(1) by (simp add: Event_def bindE_def)
  then show ?thesis
    using assms(5,6) by (simp add: evaluate_events_def evaluate_list_append)
qed

theorem malformed_trait_propagates_witness:
  "Event (demo_env 60 seconds_clock (storage_of [other_alarm])) malformed_event = Inl ValueError \<and>
   fst (evaluate_events (demo_env 60 seconds_clock (storage_of [other_alarm])) new_evaluator
     (VList ([other_event] @ malformed_event # [other_event]))) = Inl ValueError \<and>
   length (calls (snd (evaluate_events (demo_env 60 seconds_clock (storage_of [other_alarm]))
     new_evaluator (VList ([other_event] @ malformed_event # [other_event]))))) = 2"
proof -
  let ?E = "demo_env 60 seconds_clock (storage_of [other_alarm])"
  let ?d = "[(''event_type'', VStr ''compute.instance.delete.end''),
            (''message_id'', VStr ''m0''),
            (''traits'', VList [VList [VStr ''tenant_id'', VInt 1, VStr ''p2''],
                                VList [VStr ''count'', VInt 2, VStr ''abc'']])]"
  have m: "malformed_event = VDict ?d"
    by (simp add: malformed_event_def)
  have h1: "validate (VDict ?d) = Inr ()"
    by (simp add: validate_def bindE_def)
  have h2: "map_of ?d ''traits'' =
      Some (VList ([VList [VStr ''tenant_id'', VInt 1, VStr ''p2'']] @
                   VList (VStr ''count'' # VInt 2 # VStr ''abc'' # []) # []))"
    by simp
  have h3: "parse_traits_loop ?E [VList [VStr ''tenant_id'', VInt 1, VStr ''p2'']] [] (VStr []) =
      Inr ([(VStr ''tenant_id'', VStr ''p2'')], VStr ''p2'')"
    by (simp add: bindE_def TRAIT_FIELD_def TRAIT_VALUE_def TRAIT_TYPE_def
        sanitize_trait_value_def text_type_def)
  have h4: "sanitize_trait_value ?E (VStr ''abc'') (VInt 2) = Inl ValueError"
    by (simp add: sanitize_trait_value_def demo_env_def)
  have h5: "ValueError \<noteq> InvalidEvent"
    by simp
  have h6: "evaluate_list ?E new_evaluator [other_event] =
      (Inr (), snd (evaluate_list ?E new_evaluator [other_event]))"
    by code_simp
  have c: "length (calls (snd (evaluate_list ?E new_evaluator [other_event]))) = 2"
    by code_simp
  show ?thesis
    using c malformed_trait_propagates [OF h1 h2 h3 h4 h5 h6, of "[other_event]"]
    by (simp add: m)
qed

text \<open>
  Against claim C3 as stated: the trait \<^verbatim>\<open>count\<close> has type code 2 and the value
  \<^verbatim>\<open>'abc'\<close>. \<^verbatim>\<open>Event\<close> raises ValueError, not InvalidEvent, and \<^verbatim>\<open>evaluate_events\<close> on this
  event followed by another raises it too, the evaluator untouched: the event is not
  dropped and the next one, which alone is evaluated and fires an alarm, is not reached.
\<close>

theorem malformed_trait_not_dropped:
  "Event (demo_env 60 seconds_clock (storage_of [other_alarm])) malformed_event = Inl ValueError \<and>
   evaluate_events (demo_env 60 seconds_clock (storage_of [other_alarm])) new_evaluator
     (VList [malformed_event, other_event]) = (Inl ValueError, new_evaluator) \<and>
   length (calls (snd (evaluate_events (demo_env 60 seconds_clock (storage_of [other_alarm]))
     new_evaluator (VList [other_event])))) = 2"
  by code_simp

subsection \<open>Matching an alarm against an event\<close>

text \<open>
  What it is for a condition of a query to hold for an event, in the words of the
  specification: the comparator is the one named by \<^verbatim>\<open>op\<close>, or \<^verbatim>\<open>eq\<close> when the condition has
  no \<^verbatim>\<open>op\<close>; its left operand is the value of the condition's field in the event, its
  right operand the condition's value; and it answers true.
\<close>

definition condition_holds :: "event \<Rightarrow> pyval \<Rightarrow> bool" where
  "condition_holds ev c =
     (case c of
        VDict d \<Rightarrow>
          (case (case map_of d ''op'' of None \<Rightarrow> VStr ''eq'' | Some name \<Rightarrow> name) of
             VStr n \<Rightarrow>
               (case (COMPARATORS n, map_of d ''field'', map_of d ''value'') of
                  (Some op, Some field, Some v) \<Rightarrow>
                    (case get_value ev field of
                       Inr operand \<Rightarrow> apply_op op operand v = Inr True
                     | Inl e \<Rightarrow> False)
                | _ \<Rightarrow> False)
           | _ \<Rightarrow> False)
      | _ \<Rightarrow> False)"

lemma compare_holds: "compare ev c = Inr True \<longleftrightarrow> condition_holds ev c"
  by (cases c)
     (auto simp: compare_def condition_holds_def bindE_def COMPARATORS_getitem_def
        split: option.splits sum.splits pyval.splits)

lemma conditions_met:
  "(\<forall>x\<in>set met. compare ev x = Inr True) \<Longrightarrow> conditions ev (met @ ys) = conditions ev ys"
  by (induction met) auto

lemma conditions_True:
  "conditions ev qs = Inr True \<longleftrightarrow> (\<forall>x\<in>set qs. compare ev x = Inr True)"
  by (induction qs) (auto split: sum.splits)

lemma calls_fire_alarm:
  "calls (snd (fire_alarm cf s a ev)) = calls s @
     [Refresh a ALARM (''Event (message_id='' @ text_type cf (id' ev) @
                   '') hit the query of alarm (id='' @ alarm_id a @ '')'')
        (VDict [(''type'', VStr ''event''), (''event'', obj ev)])]"
  by (simp add: fire_alarm_def refresh_def Evaluator_refresh_def Let_def split: option.splits)

text \<open>
  Claim C1. Take an alarm that passes the guard of the alarms already fired and whose
  rule has an \<^verbatim>\<open>event_type\<close> pattern and a \<^verbatim>\<open>query\<close>, and an event with an \<^verbatim>\<open>event_type\<close>.
  \<^verbatim>\<open>_evaluate_alarm\<close> fires the alarm (it makes a call of \<^verbatim>\<open>_refresh\<close>) if and only if the
  pattern matches the event's type as a shell pattern and every condition of the query
  holds; it then does exactly what \<^verbatim>\<open>_fire_alarm\<close> does. It short-circuits: when the
  pattern does not match, and when a condition is false after conditions that hold, it
  returns with the evaluator as it was, whatever the rest of the query is.
\<close>

theorem evaluate_alarm_fires_iff:
  assumes "repeat_actions a \<or> state a \<noteq> ALARM"
    and "py_getitem (rule a) ''event_type'' = Inr pat"
    and "py_getitem (obj ev) ''event_type'' = Inr et"
    and "py_getitem (rule a) ''query'' = Inr q"
    and "py_iter q = Inr qs"
  shows "(calls (snd (evaluate_alarm cf s a ev)) \<noteq> calls s \<longleftrightarrow>
            fnmatch et pat = Inr True \<and> list_all (condition_holds ev) qs) \<and>
         (fnmatch et pat = Inr True \<and> list_all (condition_holds ev) qs \<longrightarrow>
            evaluate_alarm cf s a ev = fire_alarm cf s a ev) \<and>
         (fnmatch et pat = Inr False \<longrightarrow> evaluate_alarm cf s a ev = (Inr (), s)) \<and>
         (\<forall>met c rest. qs = met @ c # rest \<and> fnmatch et pat = Inr True \<and>
            list_all (condition_holds ev) met \<and> compare ev c = Inr False \<longrightarrow>
            evaluate_alarm cf s a ev = (Inr (), s))"
proof -
  have all: "list_all (condition_holds ev) qs \<longleftrightarrow> conditions ev qs = Inr True"
    by (simp add: conditions_True compare_holds list_all_iff)
  have fired: "calls (snd (fire_alarm cf s a ev)) \<noteq> calls s"
    by (simp add: calls_fire_alarm)
  have A: "calls (snd (evaluate_alarm cf s a ev)) \<noteq> calls s \<longleftrightarrow>
            fnmatch et pat = Inr True \<and> list_all (condition_holds ev) qs"
    using assms fired by (auto simp: evaluate_alarm_def all split: sum.splits)
  have B: "fnmatch et pat = Inr True \<and> list_all (condition_holds ev) qs \<longrightarrow>
            evaluate_alarm cf s a ev = fire_alarm cf s a ev"
    using assms by (auto simp: evaluate_alarm_def all)
  have C: "fnmatch et pat = Inr False \<longrightarrow> evaluate_alarm cf s a ev = (Inr (), s)"
    using assms by (auto simp: evaluate_alarm_def)
  have D: "evaluate_alarm cf s a ev = (Inr (), s)"
    if "qs = met @ c # rest" "fnmatch et pat = Inr True"
       "list_all (condition_holds ev) met" "compare ev c = Inr False" for met c rest
  proof -
    have "conditions ev qs = Inr False"
      using that by (simp add: conditions_met compare_holds list_all_iff)
    then show ?thesis
      using assms that by (auto simp: evaluate_alarm_def)
  qed
  from A B C D show ?thesis by blast
qed

subsection \<open>Exceptions of one alarm\<close>

lemma logged_refresh: "logged (snd (refresh cf s a st reason reason_data)) = logged s"
  by (simp add: refresh_def Evaluator_refresh_def Let_def split: option.splits)

lemma logged_evaluate_alarm: "logged (snd (evaluate_alarm cf s a ev)) = logged s"
  by (simp add: evaluate_alarm_def fire_alarm_def logged_refresh Let_def split: sum.splits)

lemma logged_get_project_alarms: "logged (snd (get_project_alarms cf s p)) = logged s"
  by (simp add: get_project_alarms_def is_older_than_def Let_def
      split: sum.splits option.splits)

lemma logged_evaluate_alarms:
  "\<exists>ys. logged (evaluate_alarms cf s ev xs) = logged s @ ys"
proof (induction xs arbitrary: s)
  case Nil
  then show ?case by simp
next
  case (Cons x xs)
  obtain i a where x: "x = (i, a)" by (cases x)
  obtain r s1 where e: "evaluate_alarm cf s a ev = (r, s1)"
    by (cases "evaluate_alarm cf s a ev")
  then have l: "logged s1 = logged s"
    using logged_evaluate_alarm [of cf s a ev] by simp
  show ?case
  proof (cases r)
    case (Inl err)
    from Cons.IH [of "s1\<lparr>logged := logged s1 @ [(i, err)]\<rparr>"]
    show ?thesis by (auto simp: x e Inl l)
  next
    case (Inr u)
    from Cons.IH [of s1] show ?thesis by (auto simp: x e Inr l)
  qed
qed

lemma logged_evaluate_list:
  "\<exists>ys. logged (snd (evaluate_list cf s es)) = logged s @ ys"
proof (induction es arbitrary: s)
  case Nil
  then show ?case by simp
next
  case (Cons e es)
  show ?case
  proof (cases "Event cf e")
    case (Inl err)
    with Cons.IH [of s] show ?thesis by auto
  next
    case (Inr ev)
    obtain r s1 where g: "get_project_alarms cf s (project ev) = (r, s1)"
      by (cases "get_project_alarms cf s (project ev)")
    then have l: "logged s1 = logged s"
      using logged_get_project_alarms [of cf s "project ev"] by simp
    show ?thesis
    proof (cases r)
      case (Inl err)
      then show ?thesis by (simp add: Inr g l)
    next
      case found: (Inr found)
      obtain ys where a: "logged (evaluate_alarms cf s1 ev found) = logged s1 @ ys"
        using logged_evaluate_alarms by blast
      obtain zs where b:
        "logged (snd (evaluate_list cf (evaluate_alarms cf s1 ev found) es)) =
           logged (evaluate_alarms cf s1 ev found) @ zs"
        using Cons.IH by blast
      show ?thesis by (simp add: Inr g found a b l)
    qed
  qed
qed

text \<open>
  Claim C6. The loop over the alarms of an event's project returns an evaluator and
  never an exception. When the evaluation of one alarm raises (in matching or in
  firing), the exception is logged under the alarm's id and the loop goes on with the
  alarms after it, from the evaluator as the failed evaluation left it; the events
  after this one are evaluated in turn; and the log still holds the entry when
  \<^verbatim>\<open>evaluate_events\<close> is done.
\<close>

theorem alarm_failure_isolated:
  assumes "Event cf e = Inr ev"
    and "get_project_alarms cf s (project ev) = (Inr (before @ (i, a) # rest), s1)"
    and "evaluate_alarm cf (evaluate_alarms cf s1 ev before) a ev = (Inl err, s2)"
  shows "evaluate_alarms cf s1 ev (before @ (i, a) # rest) =
           evaluate_alarms cf (s2\<lparr>logged := logged s2 @ [(i, err)]\<rparr>) ev rest \<and>
         evaluate_list cf s (e # es) =
           evaluate_list cf
             (evaluate_alarms cf (s2\<lparr>logged := logged s2 @ [(i, err)]\<rparr>) ev rest) es \<and>
         (i, err) \<in> set (logged (snd (evaluate_list cf s (e # es))))"
proof -
  let ?t = "s2\<lparr>logged := logged s2 @ [(i, err)]\<rparr>"
  have inner: "evaluate_alarms cf s1 ev (before @ (i, a) # rest) = evaluate_alarms cf ?t ev rest"
    using assms(3) by (simp add: evaluate_alarms_append)
  have outer: "evaluate_list cf s (e # es) = evaluate_list cf (evaluate_alarms cf ?t ev rest) es"
    using assms(1,2) inner by simp
  obtain ys where "logged (evaluate_alarms cf ?t ev rest) = logged ?t @ ys"
    using logged_evaluate_alarms by blast
  moreover obtain zs where
    "logged (snd (evaluate_list cf (evaluate_alarms cf ?t ev rest) es)) =
       logged (evaluate_alarms cf ?t ev rest) @ zs"
    using logged_evaluate_list by blast
  ultimately have "(i, err) \<in> set (logged (snd (evaluate_list cf s (e # es))))"
    unfolding outer by simp
  with inner outer show ?thesis by simp
qed

lemma COMPARATORS_None:
  "VStr n \<notin> set (map VStr [''gt'', ''lt'', ''ge'', ''le'', ''eq'', ''ne'']) \<Longrightarrow>
   COMPARATORS n = None"
  by (simp add: COMPARATORS_def)

text \<open>
  Claim C10, as the code has it. A condition whose \<^verbatim>\<open>op\<close> is present and is not one of
  \<^verbatim>\<open>gt\<close>, \<^verbatim>\<open>lt\<close>, \<^verbatim>\<open>ge\<close>, \<^verbatim>\<open>le\<close>, \<^verbatim>\<open>eq\<close>, \<^verbatim>\<open>ne\<close> makes \<^verbatim>\<open>_compare\<close> raise at the lookup in
  \<^verbatim>\<open>COMPARATORS\<close>, whatever its field and value and even without them, so that nothing
  is compared: a KeyError when the value of \<^verbatim>\<open>op\<close> can be a key (every string, a number,
  \<^verbatim>\<open>None\<close>), a TypeError when it cannot (a list or a dict). When the evaluation of an
  alarm reaches such a condition (the guard is passed, the pattern matches and the
  conditions before it hold), \<^verbatim>\<open>_evaluate_alarm\<close> raises that exception with the evaluator
  as it was, so the alarm is not fired and does not return as a non-match; the loop
  over the alarms logs the exception under the alarm's id and goes on with the alarms
  after it.
\<close>

theorem unknown_op_raises:
  assumes "map_of c ''op'' = Some name"
    and "name \<notin> set (map VStr [''gt'', ''lt'', ''ge'', ''le'', ''eq'', ''ne''])"
    and "repeat_actions a \<or> state a \<noteq> ALARM"
    and "py_getitem (rule a) ''event_type'' = Inr pat"
    and "py_getitem (obj ev) ''event_type'' = Inr et"
    and "fnmatch et pat = Inr True"
    and "py_getitem (rule a) ''query'' = Inr q"
    and "py_iter q = Inr (met @ VDict c # others)"
    and "\<forall>x\<in>set met. compare ev x = Inr True"
  shows "compare ev (VDict c) = Inl (if hashable name then KeyError else TypeError) \<and>
         evaluate_alarm cf s a ev = (Inl (if hashable name then KeyError else TypeError), s) \<and>
         evaluate_alarms cf s ev ((i, a) # rest) =
           evaluate_alarms cf
             (s\<lparr>logged := logged s @ [(i, if hashable name then KeyError else TypeError)]\<rparr>)
             ev rest"
proof -
  let ?err = "if hashable name then KeyError else TypeError"
  have look: "COMPARATORS_getitem name = Inl ?err"
    using assms(2) COMPARATORS_None
    by (cases name)
       (auto simp: COMPARATORS_getitem_def simp del: set_map list.map split: option.splits)
  have cmp: "compare ev (VDict c) = Inl ?err"
    using assms(1) look by (simp add: compare_def bindE_def)
  have "conditions ev (met @ VDict c # others) = Inl ?err"
    using assms(9) cmp by (simp add: conditions_met)
  then have one: "evaluate_alarm cf s a ev = (Inl ?err, s)"
    using assms(3-8) by (auto simp: evaluate_alarm_def)
  from cmp one show ?thesis by simp
qed

text \<open>
  Against claim C10 as stated: the \<^verbatim>\<open>op\<close> of the condition is the list \<^verbatim>\<open>['eq']\<close>, which is
  present and is not one of the six names. The lookup \<^verbatim>\<open>COMPARATORS[['eq']]\<close> cannot hash
  the list: \<^verbatim>\<open>_compare\<close> and \<^verbatim>\<open>_evaluate_alarm\<close> raise TypeError, not KeyError.
\<close>

theorem unhashable_op_type_error:
  "py_get (VDict [(''field'', VStr ''traits.instance_id''), (''op'', VList [VStr ''eq'']),
             (''value'', VStr ''i-9'')]) ''op'' (VStr ''eq'') = Inr (VList [VStr ''eq'']) \<and>
   VList [VStr ''eq''] \<notin> set (map VStr [''gt'', ''lt'', ''ge'', ''le'', ''eq'', ''ne'']) \<and>
   compare delete_event_wrapped
     (VDict [(''field'', VStr ''traits.instance_id''), (''op'', VList [VStr ''eq'']),
             (''value'', VStr ''i-9'')]) = Inl TypeError \<and>
   evaluate_alarm (demo_env 60 seconds_clock (storage_of [])) new_evaluator
     list_op_alarm delete_event_wrapped = (Inl TypeError, new_evaluator) \<and>
   TypeError \<noteq> KeyError"
  by (simp add: compare_def bindE_def COMPARATORS_getitem_def evaluate_alarm_def
      list_op_alarm_def demo_alarm_def ALARM_def delete_event_wrapped_def wrapped_event_def
      raw_event_def)

subsection \<open>The scenarios of the specification\<close>

theorem evaluate_alarm_fires_iff_witness:
  "fnmatch (VStr ''compute.instance.update'') (VStr ''compute.instance.*'') = Inr True \<and>
   fnmatch (VStr ''compute.volume.attach'') (VStr ''compute.instance.*'') = Inr False \<and>
   calls (snd (evaluate_alarm (demo_env 60 seconds_clock (storage_of [])) new_evaluator
     instance_alarm (wrapped_event ''compute.instance.update'' ''m1'' ''i-9'' ''p1''))) \<noteq>
     calls new_evaluator \<and>
   evaluate_alarm (demo_env 60 seconds_clock (storage_of [])) new_evaluator
     instance_alarm (wrapped_event ''compute.volume.attach'' ''m1'' ''i-9'' ''p1'') =
     (Inr (), new_evaluator) \<and>
   evaluate_alarm (demo_env 60 seconds_clock (storage_of [])) new_evaluator
     instance_alarm (wrapped_event ''compute.instance.update'' ''m1'' ''i-8'' ''p1'') =
     (Inr (), new_evaluator)"
proof -
  let ?E = "demo_env 60 seconds_clock (storage_of [])"
  let ?pat = "VStr ''compute.instance.*''"
  let ?c1 = "condition ''traits.instance_id'' ''eq'' (VStr ''i-9'')"
  let ?c2 = "VDict [(''field'', VStr ''traits.tenant_id''), (''value'', VStr ''p1'')]"
  let ?ev1 = "wrapped_event ''compute.instance.update'' ''m1'' ''i-9'' ''p1''"
  let ?ev2 = "wrapped_event ''compute.volume.attach'' ''m1'' ''i-9'' ''p1''"
  let ?ev3 = "wrapped_event ''compute.instance.update'' ''m1'' ''i-8'' ''p1''"
  have g: "repeat_actions instance_alarm \<or> state instance_alarm \<noteq> ALARM"
    by (simp add: instance_alarm_def demo_alarm_def ALARM_def)
  have p: "py_getitem (rule instance_alarm) ''event_type'' = Inr ?pat"
    by (simp add: instance_alarm_def demo_alarm_def)
  have q: "py_getitem (rule instance_alarm) ''query'' = Inr (VList [?c1, ?c2])"
    by (simp add: instance_alarm_def demo_alarm_def)
  have it: "py_iter (VList [?c1, ?c2]) = Inr [?c1, ?c2]"
    by simp
  have e1: "py_getitem (obj ?ev1) ''event_type'' = Inr (VStr ''compute.instance.update'')"
    by (simp add: wrapped_event_def raw_event_def)
  have e2: "py_getitem (obj ?ev2) ''event_type'' = Inr (VStr ''compute.volume.attach'')"
    by (simp add: wrapped_event_def raw_event_def)
  have e3: "py_getitem (obj ?ev3) ''event_type'' = Inr (VStr ''compute.instance.update'')"
    by (simp add: wrapped_event_def raw_event_def)
  have m1: "fnmatch (VStr ''compute.instance.update'') ?pat = Inr True"
    by simp
  have m2: "fnmatch (VStr ''compute.volume.attach'') ?pat = Inr False"
    by simp
  have h1: "list_all (condition_holds ?ev1) [?c1, ?c2]"
    by code_simp
  have f3: "compare ?ev3 ?c1 = Inr False"
    by code_simp
  have r1: "calls (snd (evaluate_alarm ?E new_evaluator instance_alarm ?ev1)) \<noteq>
            calls new_evaluator"
    using evaluate_alarm_fires_iff [OF g p e1 q it, of ?E new_evaluator] m1 h1 by blast
  have r2: "evaluate_alarm ?E new_evaluator instance_alarm ?ev2 = (Inr (), new_evaluator)"
    using evaluate_alarm_fires_iff [OF g p e2 q it, of ?E new_evaluator] m2 by blast
  have "[?c1, ?c2] = [] @ ?c1 # [?c2] \<and> fnmatch (VStr ''compute.instance.update'') ?pat = Inr True \<and>
        list_all (condition_holds ?ev3) [] \<and> compare ?ev3 ?c1 = Inr False"
    using m1 f3 by simp
  then have r3: "evaluate_alarm ?E new_evaluator instance_alarm ?ev3 = (Inr (), new_evaluator)"
    using evaluate_alarm_fires_iff [OF g p e3 q it, of ?E new_evaluator] by blast
  from m1 m2 r1 r2 r3 show ?thesis by blast
qed

theorem alarm_failure_isolated_witness:
  "(''a0'', TypeError) \<in> set (logged (snd (evaluate_list
      (demo_env 60 seconds_clock (storage_of [delete_alarm, broken_alarm, type_alarm]))
      new_evaluator (delete_event # [])))) \<and>
   fst (evaluate_list
      (demo_env 60 seconds_clock (storage_of [delete_alarm, broken_alarm, type_alarm]))
      new_evaluator (delete_event # [])) = Inr () \<and>
   length (calls (snd (evaluate_list
      (demo_env 60 seconds_clock (storage_of [delete_alarm, broken_alarm, type_alarm]))
      new_evaluator (delete_event # [])))) = 3"
proof -
  let ?E = "demo_env 60 seconds_clock (storage_of [delete_alarm, broken_alarm, type_alarm])"
  let ?s1 = "snd (get_project_alarms ?E new_evaluator (project delete_event_wrapped))"
  let ?s2 = "snd (evaluate_alarm ?E (evaluate_alarms ?E ?s1 delete_event_wrapped
                [(''a1'', delete_alarm)]) broken_alarm delete_event_wrapped)"
  have h1: "Event ?E delete_event = Inr delete_event_wrapped"
    by (rule Event_delete_event)
  have h2: "get_project_alarms ?E new_evaluator (project delete_event_wrapped) =
      (Inr ([(''a1'', delete_alarm)] @ (''a0'', broken_alarm) # [(''a2'', type_alarm)]), ?s1)"
    by code_simp
  have h3: "evaluate_alarm ?E (evaluate_alarms ?E ?s1 delete_event_wrapped
      [(''a1'', delete_alarm)]) broken_alarm delete_event_wrapped = (Inl TypeError, ?s2)"
    by code_simp
  have c: "fst (evaluate_list ?E new_evaluator (delete_event # [])) = Inr () \<and>
           length (calls (snd (evaluate_list ?E new_evaluator (delete_event # [])))) = 3"
    by code_simp
  show ?thesis
    using c alarm_failure_isolated [OF h1 h2 h3, of "[]"] by blast
qed

theorem unknown_op_raises_witness:
  "compare delete_event_wrapped (condition ''traits.instance_id'' ''like'' (VStr ''i'')) =
     Inl KeyError \<and>
   evaluate_alarm (demo_env 60 seconds_clock (storage_of [])) new_evaluator
     unknown_op_alarm delete_event_wrapped = (Inl KeyError, new_evaluator) \<and>
   logged (evaluate_alarms (demo_env 60 seconds_clock (storage_of [])) new_evaluator
     delete_event_wrapped [(''a3'', unknown_op_alarm), (''a1'', delete_alarm)]) =
     [(''a3'', KeyError)] \<and>
   length (calls (evaluate_alarms (demo_env 60 seconds_clock (storage_of [])) new_evaluator
     delete_event_wrapped [(''a3'', unknown_op_alarm), (''a1'', delete_alarm)])) = 1"
proof -
  let ?E = "demo_env 60 seconds_clock (storage_of [])"
  let ?c = "[(''field'', VStr ''traits.instance_id''), (''op'', VStr ''like''),
             (''value'', VStr ''i'')]"
  let ?c1 = "condition ''traits.instance_id'' ''eq'' (VStr ''i-9'')"
  have cd: "condition ''traits.instance_id'' ''like'' (VStr ''i'') = VDict ?c"
    by (simp add: condition_def)
  have h1: "map_of ?c ''op'' = Some (VStr ''like'')"
    by simp
  have h3: "VStr ''like'' \<notin> set (map VStr [''gt'', ''lt'', ''ge'', ''le'', ''eq'', ''ne''])"
    by simp
  have h4: "repeat_actions unknown_op_alarm \<or> state unknown_op_alarm \<noteq> ALARM"
    by (simp add: unknown_op_alarm_def demo_alarm_def ALARM_def)
  have h5: "py_getitem (rule unknown_op_alarm) ''event_type'' = Inr (VStr ''compute.*'')"
    by (simp add: unknown_op_alarm_def demo_alarm_def)
  have h6: "py_getitem (obj delete_event_wrapped) ''event_type'' =
              Inr (VStr ''compute.instance.delete.end'')"
    by (simp add: delete_event_wrapped_def wrapped_event_def raw_event_def)
  have h7: "fnmatch (VStr ''compute.instance.delete.end'') (VStr ''compute.*'') = Inr True"
    by simp
  have h8: "py_getitem (rule unknown_op_alarm) ''query'' = Inr (VList [?c1, VDict ?c])"
    by (simp add: unknown_op_alarm_def demo_alarm_def condition_def)
  have h9: "py_iter (VList [?c1, VDict ?c]) = Inr ([?c1] @ VDict ?c # [])"
    by simp
  have t: "compare delete_event_wrapped ?c1 = Inr True"
    by code_simp
  have h10: "\<forall>x\<in>set [?c1]. compare delete_event_wrapped x = Inr True"
    using t by simp
  have after: "logged (evaluate_alarms ?E (new_evaluator\<lparr>logged := logged new_evaluator @
                  [(''a3'', KeyError)]\<rparr>) delete_event_wrapped [(''a1'', delete_alarm)]) =
                 [(''a3'', KeyError)] \<and>
               length (calls (evaluate_alarms ?E (new_evaluator\<lparr>logged := logged new_evaluator @
                  [(''a3'', KeyError)]\<rparr>) delete_event_wrapped [(''a1'', delete_alarm)])) = 1"
    by code_simp
  show ?thesis
    using after
      unknown_op_raises [OF h1 h3 h4 h5 h6 h7 h8 h9 h10, of ?E new_evaluator "''a3''"
        "[(''a1'', delete_alarm)]"]
    by (simp only: cd hashable.simps if_True)
qed

subsection \<open>The cache of a project's alarms\<close>

text \<open>The dict that \<^verbatim>\<open>_get_project_alarms\<close> builds from what the storage returns.\<close>

definition fetched_alarms :: "alarm list \<Rightarrow> (string \<times> alarm) list" where
  "fetched_alarms found = fold (\<lambda>a d. AList.update (alarm_id a) a d) found []"

text \<open>A call is served from the cache when the project has an entry whose age, at the
  clock's reading of this call, is at most the TTL.\<close>

definition served_from_cache :: "env \<Rightarrow> evaluator \<Rightarrow> pyval \<Rightarrow> bool" where
  "served_from_cache cf s p =
     (case map_of (caches s) (hkey p) of
        None \<Rightarrow> False
      | Some entry \<Rightarrow>
          utcnow cf (tick s) - updated entry \<le> event_alarm_cache_ttl cf * 1000000)"

lemma get_project_alarms_hit:
  assumes "event_alarm_cache_ttl cf \<noteq> 0" and "hashable p"
    and "map_of (caches s) (hkey p) = Some entry"
    and "utcnow cf (tick s) - updated entry \<le> event_alarm_cache_ttl cf * 1000000"
  shows "get_project_alarms cf s p = (Inr (alarms entry), s\<lparr>tick := Suc (tick s)\<rparr>)"
  using assms by (simp add: get_project_alarms_def is_older_than_def Let_def)

lemma get_project_alarms_stale:
  assumes "event_alarm_cache_ttl cf \<noteq> 0" and "hashable p"
    and "map_of (caches s) (hkey p) = Some entry"
    and "utcnow cf (tick s) - updated entry > event_alarm_cache_ttl cf * 1000000"
  shows "get_project_alarms cf s p =
         get_project_alarms cf
           (s\<lparr>tick := Suc (tick s), caches := AList.delete (hkey p) (caches s)\<rparr>) p"
  using assms
  by (simp add: get_project_alarms_def is_older_than_def Let_def delete_conv')

lemma get_project_alarms_miss:
  assumes "event_alarm_cache_ttl cf \<noteq> 0" and "hashable p"
    and "map_of (caches s) (hkey p) = None"
  shows "get_project_alarms cf s p =
     (case get_alarms cf (tick s) p of
        Inl e \<Rightarrow> (Inl e, s\<lparr>tick := Suc (tick s), calls := calls s @ [GetAlarms p]\<rparr>)
      | Inr found \<Rightarrow>
          (Inr (fetched_alarms found),
           s\<lparr>tick := Suc (Suc (tick s)), calls := calls s @ [GetAlarms p],
             caches := AList.update (hkey p)
               \<lparr>alarms = fetched_alarms found, updated = utcnow cf (Suc (tick s))\<rparr>
               (caches s)\<rparr>))"
  using assms
  by (simp add: get_project_alarms_def Let_def fetched_alarms_def split: sum.splits)

text \<open>
  Claim C8, as the code has it. With a TTL greater than 0 and an entry for the project,
  \<^verbatim>\<open>_get_project_alarms\<close> reads the clock once and compares the age of the entry with the
  TTL strictly (\<^verbatim>\<open>is_older_than\<close>). When the age is at most the TTL, also when it is
  equal to it, the cached alarms are returned and the storage is not called. When the
  age is greater than the TTL, the entry is discarded and the storage is called once:
  if it answers, its alarms are returned and stored with the time of the fetch, and if
  it raises, the exception is raised and the project has no entry any more.
\<close>

theorem cache_entry_expiry:
  assumes "0 < event_alarm_cache_ttl cf" and "hashable p"
    and "map_of (caches s) (hkey p) = Some entry"
  shows "(utcnow cf (tick s) - updated entry \<le> event_alarm_cache_ttl cf * 1000000 \<longrightarrow>
            get_project_alarms cf s p = (Inr (alarms entry), s\<lparr>tick := Suc (tick s)\<rparr>)) \<and>
         (utcnow cf (tick s) - updated entry > event_alarm_cache_ttl cf * 1000000 \<longrightarrow>
            calls (snd (get_project_alarms cf s p)) = calls s @ [GetAlarms p] \<and>
            (case get_alarms cf (Suc (tick s)) p of
               Inl e \<Rightarrow>
                 fst (get_project_alarms cf s p) = Inl e \<and>
                 map_of (caches (snd (get_project_alarms cf s p))) (hkey p) = None
             | Inr found \<Rightarrow>
                 fst (get_project_alarms cf s p) = Inr (fetched_alarms found) \<and>
                 map_of (caches (snd (get_project_alarms cf s p))) (hkey p) =
                   Some \<lparr>alarms = fetched_alarms found,
                         updated = utcnow cf (Suc (Suc (tick s)))\<rparr>))"
proof -
  have nz: "event_alarm_cache_ttl cf \<noteq> 0" using assms(1) by simp
  let ?s = "s\<lparr>tick := Suc (tick s), caches := AList.delete (hkey p) (caches s)\<rparr>"
  have none: "map_of (caches ?s) (hkey p) = None"
    by (simp add: delete_conv')
  show ?thesis
    using get_project_alarms_hit [OF nz assms(2,3)]
          get_project_alarms_stale [OF nz assms(2,3)]
          get_project_alarms_miss [OF nz assms(2) none]
    by (auto simp: update_conv' delete_conv' split: sum.splits)
qed

theorem cache_entry_expiry_witness:
  "get_project_alarms (demo_env 60 (constant_clock 60000000) (storage_of [delete_alarm]))
     cached_evaluator (VStr ''p1'') = (Inr [], cached_evaluator\<lparr>tick := Suc 0\<rparr>) \<and>
   calls (snd (get_project_alarms
     (demo_env 60 (constant_clock 60000001) (storage_of [delete_alarm]))
     cached_evaluator (VStr ''p1''))) = [GetAlarms (VStr ''p1'')] \<and>
   fst (get_project_alarms
     (demo_env 60 (constant_clock 60000001) (storage_of [delete_alarm]))
     cached_evaluator (VStr ''p1'')) = Inr [(''a1'', delete_alarm)]"
proof -
  let ?A = "demo_env 60 (constant_clock 60000000) (storage_of [delete_alarm])"
  let ?B = "demo_env 60 (constant_clock 60000001) (storage_of [delete_alarm])"
  let ?entry = "\<lparr>alarms = [], updated = 0\<rparr>"
  have ta: "0 < event_alarm_cache_ttl ?A" and tb: "0 < event_alarm_cache_ttl ?B"
    by (simp_all add: demo_env_def)
  have h: "hashable (VStr ''p1'')"
    by simp
  have e: "map_of (caches cached_evaluator) (hkey (VStr ''p1'')) = Some ?entry"
    by (simp add: cached_evaluator_def)
  have young: "utcnow ?A (tick cached_evaluator) - updated ?entry \<le>
               event_alarm_cache_ttl ?A * 1000000"
    by (simp add: demo_env_def constant_clock_def)
  have old: "utcnow ?B (tick cached_evaluator) - updated ?entry >
             event_alarm_cache_ttl ?B * 1000000"
    by (simp add: demo_env_def constant_clock_def)
  have st: "get_alarms ?B (Suc (tick cached_evaluator)) (VStr ''p1'') = Inr [delete_alarm]"
    by (simp add: demo_env_def storage_of_def delete_alarm_def demo_alarm_def)
  have f: "fetched_alarms [delete_alarm] = [(''a1'', delete_alarm)]"
    by (simp add: fetched_alarms_def delete_alarm_def demo_alarm_def)
  have c0: "calls cached_evaluator = [] \<and> tick cached_evaluator = 0"
    by (simp add: cached_evaluator_def new_evaluator_def)
  have A: "get_project_alarms ?A cached_evaluator (VStr ''p1'') =
      (Inr (alarms ?entry), cached_evaluator\<lparr>tick := Suc (tick cached_evaluator)\<rparr>)"
    using cache_entry_expiry [OF ta h e] young by blast
  have B: "calls (snd (get_project_alarms ?B cached_evaluator (VStr ''p1''))) =
             calls cached_evaluator @ [GetAlarms (VStr ''p1'')] \<and>
           (case get_alarms ?B (Suc (tick cached_evaluator)) (VStr ''p1'') of
               Inl e \<Rightarrow>
                 fst (get_project_alarms ?B cached_evaluator (VStr ''p1'')) = Inl e \<and>
                 map_of (caches (snd (get_project_alarms ?B cached_evaluator (VStr ''p1''))))
                   (hkey (VStr ''p1'')) = None
             | Inr found \<Rightarrow>
                 fst (get_project_alarms ?B cached_evaluator (VStr ''p1'')) =
                   Inr (fetched_alarms found) \<and>
                 map_of (caches (snd (get_project_alarms ?B cached_evaluator (VStr ''p1''))))
                   (hkey (VStr ''p1'')) =
                   Some \<lparr>alarms = fetched_alarms found,
                         updated = utcnow ?B (Suc (Suc (tick cached_evaluator)))\<rparr>)"
    using cache_entry_expiry [OF tb h e] old by blast
  then have B': "calls (snd (get_project_alarms ?B cached_evaluator (VStr ''p1''))) =
             calls cached_evaluator @ [GetAlarms (VStr ''p1'')] \<and>
           fst (get_project_alarms ?B cached_evaluator (VStr ''p1'')) =
             Inr (fetched_alarms [delete_alarm])"
    by (simp only: st sum.case)
  from A B' show ?thesis
    by (simp add: f c0)
qed

text \<open>
  Against claim C8 as stated: the TTL is 60 seconds, the entry was stored at time 0 and
  the clock reads 60 seconds, so that the age of the entry is equal to the TTL. The
  cached alarms (none) are returned and the storage, which has an alarm for the
  project, is not called.
\<close>

theorem cache_entry_kept_at_ttl:
  "utcnow (demo_env 60 (constant_clock 60000000) (storage_of [delete_alarm]))
     (tick cached_evaluator) - 0 \<ge>
     event_alarm_cache_ttl (demo_env 60 (constant_clock 60000000) (storage_of [delete_alarm]))
       * 1000000 \<and>
   map_of (caches cached_evaluator) (VStr ''p1'') = Some \<lparr>alarms = [], updated = 0\<rparr> \<and>
   get_project_alarms (demo_env 60 (constant_clock 60000000) (storage_of [delete_alarm]))
     cached_evaluator (VStr ''p1'') = (Inr [], cached_evaluator\<lparr>tick := 1\<rparr>) \<and>
   calls (cached_evaluator\<lparr>tick := 1\<rparr>) = [] \<and>
   storage_of [delete_alarm] (VStr ''p1'') = Inr [delete_alarm]"
  by (simp add: demo_env_def constant_clock_def cached_evaluator_def new_evaluator_def
      get_project_alarms_def is_older_than_def storage_of_def delete_alarm_def demo_alarm_def)

text \<open>
  Claim C7. With a TTL greater than 0, take a call of \<^verbatim>\<open>_get_project_alarms\<close> for a
  project that is not served from the cache and to which the storage answers. It makes
  exactly one fetch and stores the alarms it returns. Every later call for the project
  whose clock reading is within the TTL of that entry returns the same alarms and
  leaves the calls as they are: it does not ask the storage, whatever the storage
  would answer by then. The two calls together make one fetch.
\<close>

theorem cache_idempotence:
  assumes "0 < event_alarm_cache_ttl cf" and "hashable p"
    and "\<not> served_from_cache cf s p"
    and "get_project_alarms cf s p = (Inr m, s1)"
  shows "\<exists>entry. map_of (caches s1) (hkey p) = Some entry \<and> alarms entry = m \<and>
           calls s1 = calls s @ [GetAlarms p] \<and>
           (\<forall>k. utcnow cf k - updated entry \<le> event_alarm_cache_ttl cf * 1000000 \<longrightarrow>
                 get_project_alarms cf (s1\<lparr>tick := k\<rparr>) p = (Inr m, s1\<lparr>tick := Suc k\<rparr>))"
proof -
  have nz: "event_alarm_cache_ttl cf \<noteq> 0" using assms(1) by simp
  have first: "\<exists>entry. map_of (caches s1) (hkey p) = Some entry \<and> alarms entry = m \<and>
           calls s1 = calls s @ [GetAlarms p]"
  proof (cases "map_of (caches s) (hkey p)")
    case None
    from get_project_alarms_miss [OF nz assms(2) None] assms(4)
    show ?thesis by (auto simp: update_conv' split: sum.splits)
  next
    case (Some e)
    with assms(3) have old:
      "utcnow cf (tick s) - updated e > event_alarm_cache_ttl cf * 1000000"
      by (simp add: served_from_cache_def)
    let ?s = "s\<lparr>tick := Suc (tick s), caches := AList.delete (hkey p) (caches s)\<rparr>"
    have none: "map_of (caches ?s) (hkey p) = None"
      by (simp add: delete_conv')
    from get_project_alarms_stale [OF nz assms(2) Some old]
         get_project_alarms_miss [OF nz assms(2) none] assms(4)
    show ?thesis by (auto simp: update_conv' split: sum.splits)
  qed
  then obtain entry where e: "map_of (caches s1) (hkey p) = Some entry" "alarms entry = m"
      "calls s1 = calls s @ [GetAlarms p]"
    by blast
  have "get_project_alarms cf (s1\<lparr>tick := k\<rparr>) p = (Inr m, s1\<lparr>tick := Suc k\<rparr>)"
    if "utcnow cf k - updated entry \<le> event_alarm_cache_ttl cf * 1000000" for k
    using get_project_alarms_hit [OF nz assms(2), of "s1\<lparr>tick := k\<rparr>" entry] e that
    by simp
  with e show ?thesis by blast
qed

theorem cache_idempotence_witness:
  "get_project_alarms (demo_env 60 seconds_clock (storage_of [delete_alarm]))
     (snd (get_project_alarms (demo_env 60 seconds_clock (storage_of [delete_alarm]))
        new_evaluator (VStr ''p1'')) \<lparr>tick := 50\<rparr>)
     (VStr ''p1'') =
   (Inr [(''a1'', delete_alarm)],
    snd (get_project_alarms (demo_env 60 seconds_clock (storage_of [delete_alarm]))
        new_evaluator (VStr ''p1'')) \<lparr>tick := Suc 50\<rparr>) \<and>
   calls (snd (get_project_alarms (demo_env 60 seconds_clock (storage_of [delete_alarm]))
        new_evaluator (VStr ''p1''))) = [GetAlarms (VStr ''p1'')]"
proof -
  let ?E = "demo_env 60 seconds_clock (storage_of [delete_alarm])"
  let ?s1 = "snd (get_project_alarms ?E new_evaluator (VStr ''p1''))"
  let ?m = "[(''a1'', delete_alarm)]"
  have t: "0 < event_alarm_cache_ttl ?E"
    by (simp add: demo_env_def)
  have h: "hashable (VStr ''p1'')"
    by simp
  have n: "\<not> served_from_cache ?E new_evaluator (VStr ''p1'')"
    by (simp add: served_from_cache_def new_evaluator_def)
  have g: "get_project_alarms ?E new_evaluator (VStr ''p1'') = (Inr ?m, ?s1)"
    by code_simp
  have c: "map_of (caches ?s1) (hkey (VStr ''p1'')) = Some \<lparr>alarms = ?m, updated = 1000000\<rparr>"
    by code_simp
  have c0: "calls new_evaluator = []"
    by (simp add: new_evaluator_def)
  obtain entry where e: "map_of (caches ?s1) (hkey (VStr ''p1'')) = Some entry"
      "calls ?s1 = calls new_evaluator @ [GetAlarms (VStr ''p1'')]"
      "\<forall>k. utcnow ?E k - updated entry \<le> event_alarm_cache_ttl ?E * 1000000 \<longrightarrow>
           get_project_alarms ?E (?s1\<lparr>tick := k\<rparr>) (VStr ''p1'') = (Inr ?m, ?s1\<lparr>tick := Suc k\<rparr>)"
    using cache_idempotence [OF t h n g] by blast
  from e(1) c have u: "updated entry = 1000000"
    by simp
  have w: "utcnow ?E 50 - updated entry \<le> event_alarm_cache_ttl ?E * 1000000"
    by (simp add: u demo_env_def seconds_clock_def)
  from e(3) w have "get_project_alarms ?E (?s1\<lparr>tick := 50\<rparr>) (VStr ''p1'') =
      (Inr ?m, ?s1\<lparr>tick := Suc 50\<rparr>)"
    by blast
  with e(2) c0 show ?thesis by simp
qed

subsection \<open>The states that the evaluator writes\<close>

text \<open>
  What may have happened to an alarm: nothing, or its state was set to \<^verbatim>\<open>alarm\<close>.
\<close>

definition fired_from :: "alarm \<Rightarrow> alarm \<Rightarrow> bool" where
  "fired_from a0 a \<longleftrightarrow> a = a0 \<or> a = a0\<lparr>state := ALARM\<rparr>"

text \<open>
  Where a cached alarm can come from: it was in the cache to begin with, under the same
  project and alarm id, or the storage has handed it out.
\<close>

definition cache_origin :: "env \<Rightarrow> evaluator \<Rightarrow> pyval \<Rightarrow> string \<Rightarrow> alarm \<Rightarrow> bool" where
  "cache_origin cf s k i a0 \<longleftrightarrow>
     (\<exists>entry. map_of (caches s) k = Some entry \<and> map_of (alarms entry) i = Some a0) \<or>
     (\<exists>n p found. get_alarms cf n p = Inr found \<and> a0 \<in> set found)"

text \<open>A call of the base class's \<^verbatim>\<open>_refresh\<close> writes the state it is given.\<close>

fun writes_alarm :: "call \<Rightarrow> bool" where
  "writes_alarm (Refresh a st reason reason_data) = (st = ALARM)"
| "writes_alarm (GetAlarms p) = True"

text \<open>
  From \<open>s\<close> to \<open>s'\<close> the evaluator has written no state but \<^verbatim>\<open>alarm\<close>: the calls are
  those of \<open>s\<close> and then calls that write \<^verbatim>\<open>alarm\<close>, and every cached alarm is one of the
  cache of \<open>s\<close> or of the storage, as it was or with its state set to \<^verbatim>\<open>alarm\<close>.
\<close>

definition only_fires :: "env \<Rightarrow> evaluator \<Rightarrow> evaluator \<Rightarrow> bool" where
  "only_fires cf s s' \<longleftrightarrow>
     (\<exists>new. calls s' = calls s @ new \<and> list_all writes_alarm new) \<and>
     (\<forall>k entry i a. map_of (caches s') k = Some entry \<longrightarrow> map_of (alarms entry) i = Some a \<longrightarrow>
        (\<exists>a0. cache_origin cf s k i a0 \<and> fired_from a0 a))"

lemma fired_from_refl: "fired_from a a"
  by (simp add: fired_from_def)

lemma fired_from_trans: "fired_from a0 a1 \<Longrightarrow> fired_from a1 a2 \<Longrightarrow> fired_from a0 a2"
  by (auto simp: fired_from_def)

lemma only_fires_refl: "only_fires cf s s"
  by (auto simp: only_fires_def cache_origin_def intro: fired_from_refl)

lemma only_fires_same:
  "calls s' = calls s \<Longrightarrow> caches s' = caches s \<Longrightarrow> only_fires cf s s'"
  by (auto simp: only_fires_def cache_origin_def intro: fired_from_refl)

lemma only_fires_trans:
  assumes "only_fires cf s s1" and "only_fires cf s1 s2"
  shows "only_fires cf s s2"
proof -
  obtain n1 n2 where c: "calls s1 = calls s @ n1" "list_all writes_alarm n1"
      "calls s2 = calls s1 @ n2" "list_all writes_alarm n2"
    using assms by (auto simp: only_fires_def)
  then have calls: "\<exists>new. calls s2 = calls s @ new \<and> list_all writes_alarm new"
    by simp
  have cache: "\<exists>a0. cache_origin cf s k i a0 \<and> fired_from a0 a"
    if in2: "map_of (caches s2) k = Some entry" "map_of (alarms entry) i = Some a"
    for k entry i a
  proof -
    obtain a1 where a1: "cache_origin cf s1 k i a1" "fired_from a1 a"
      using assms(2) in2 unfolding only_fires_def by blast
    from a1(1) consider
        entry1 where "map_of (caches s1) k = Some entry1" "map_of (alarms entry1) i = Some a1"
      | n p found where "get_alarms cf n p = Inr found" "a1 \<in> set found"
      by (auto simp: cache_origin_def)
    then show ?thesis
    proof cases
      case 1
      then obtain a0 where "cache_origin cf s k i a0" "fired_from a0 a1"
        using assms(1) unfolding only_fires_def by blast
      with a1(2) show ?thesis by (blast intro: fired_from_trans)
    next
      case 2
      then have "cache_origin cf s k i a1"
        by (auto simp: cache_origin_def)
      with a1(2) show ?thesis by blast
    qed
  qed
  from calls cache show ?thesis
    by (simp add: only_fires_def)
qed

lemma only_fires_fire_alarm: "only_fires cf s (snd (fire_alarm cf s a ev))"
  by (auto simp: only_fires_def fire_alarm_def refresh_def Evaluator_refresh_def Let_def
      cache_origin_def fired_from_def update_conv'
      split: option.splits if_splits)

lemma only_fires_evaluate_alarm: "only_fires cf s (snd (evaluate_alarm cf s a ev))"
  by (simp add: evaluate_alarm_def only_fires_refl only_fires_fire_alarm split: sum.splits)

lemma map_of_fold_update:
  "map_of (fold (\<lambda>a d. AList.update (alarm_id a) a d) found d0) i = Some a \<Longrightarrow>
   a \<in> set found \<or> map_of d0 i = Some a"
proof (induction found arbitrary: d0)
  case Nil
  then show ?case by simp
next
  case (Cons x found)
  from Cons.prems
  have "map_of (fold (\<lambda>a d. AList.update (alarm_id a) a d) found
          (AList.update (alarm_id x) x d0)) i = Some a"
    by simp
  from Cons.IH [OF this]
  have "a \<in> set found \<or> map_of (AList.update (alarm_id x) x d0) i = Some a" .
  then show ?case
    by (auto simp: update_conv' split: if_splits)
qed

lemma caches_get_project_alarms:
  assumes "map_of (caches (snd (get_project_alarms cf s p))) k = Some entry"
  shows "map_of (caches s) k = Some entry \<or>
         (\<exists>n found. get_alarms cf n p = Inr found \<and> alarms entry = fetched_alarms found)"
proof -
  have "map_of (caches s) k = Some entry \<or>
        get_alarms cf (tick s) p = Inr (projr (get_alarms cf (tick s) p)) \<and>
          alarms entry = fetched_alarms (projr (get_alarms cf (tick s) p)) \<or>
        get_alarms cf (Suc (tick s)) p = Inr (projr (get_alarms cf (Suc (tick s)) p)) \<and>
          alarms entry = fetched_alarms (projr (get_alarms cf (Suc (tick s)) p))"
    using assms
    by (auto simp: get_project_alarms_def is_older_than_def Let_def update_conv' delete_conv'
        fetched_alarms_def split: option.splits sum.splits if_splits)
  then show ?thesis by blast
qed

lemma calls_get_project_alarms:
  "calls (snd (get_project_alarms cf s p)) = calls s \<or>
   calls (snd (get_project_alarms cf s p)) = calls s @ [GetAlarms p]"
  by (auto simp: get_project_alarms_def is_older_than_def Let_def
      split: option.splits sum.splits if_splits)

lemma only_fires_get_project_alarms: "only_fires cf s (snd (get_project_alarms cf s p))"
proof -
  let ?s = "snd (get_project_alarms cf s p)"
  have "\<exists>new. calls ?s = calls s @ new \<and> list_all writes_alarm new"
    using calls_get_project_alarms [of cf s p] by auto
  moreover have "\<exists>a0. cache_origin cf s k i a0 \<and> fired_from a0 a"
    if after: "map_of (caches ?s) k = Some entry" "map_of (alarms entry) i = Some a"
    for k entry i a
  proof -
    from caches_get_project_alarms [OF after(1)] consider
        "map_of (caches s) k = Some entry"
      | n found where "get_alarms cf n p = Inr found" "alarms entry = fetched_alarms found"
      by blast
    then have "cache_origin cf s k i a"
    proof cases
      case 1
      with after(2) show ?thesis by (auto simp: cache_origin_def)
    next
      case 2
      with after(2) have "a \<in> set found"
        using map_of_fold_update [of found "[]" i a] by (simp add: fetched_alarms_def)
      with 2 show ?thesis by (auto simp: cache_origin_def)
    qed
    then show ?thesis by (blast intro: fired_from_refl)
  qed
  ultimately show ?thesis
    by (simp add: only_fires_def)
qed

lemma only_fires_evaluate_alarms: "only_fires cf s (evaluate_alarms cf s ev xs)"
proof (induction xs arbitrary: s)
  case Nil
  then show ?case by (simp add: only_fires_refl)
next
  case (Cons x xs)
  obtain i a where x: "x = (i, a)" by (cases x)
  obtain r s1 where e: "evaluate_alarm cf s a ev = (r, s1)"
    by (cases "evaluate_alarm cf s a ev")
  then have one: "only_fires cf s s1"
    using only_fires_evaluate_alarm [of cf s a ev] by simp
  show ?case
  proof (cases r)
    case (Inl err)
    have "only_fires cf s1 (s1\<lparr>logged := logged s1 @ [(i, err)]\<rparr>)"
      by (simp add: only_fires_same)
    with one have "only_fires cf s (s1\<lparr>logged := logged s1 @ [(i, err)]\<rparr>)"
      by (rule only_fires_trans)
    from only_fires_trans [OF this Cons.IH] show ?thesis
      by (simp add: x e Inl)
  next
    case (Inr u)
    from only_fires_trans [OF one Cons.IH] show ?thesis
      by (simp add: x e Inr)
  qed
qed

lemma only_fires_evaluate_list: "only_fires cf s (snd (evaluate_list cf s es))"
proof (induction es arbitrary: s)
  case Nil
  then show ?case by (simp add: only_fires_refl)
next
  case (Cons e es)
  show ?case
  proof (cases "Event cf e")
    case (Inl err)
    with Cons.IH [of s] show ?thesis by (simp add: only_fires_refl)
  next
    case (Inr ev)
    obtain r s1 where g: "get_project_alarms cf s (project ev) = (r, s1)"
      by (cases "get_project_alarms cf s (project ev)")
    then have one: "only_fires cf s s1"
      using only_fires_get_project_alarms [of cf s "project ev"] by simp
    show ?thesis
    proof (cases r)
      case (Inl err)
      with one show ?thesis by (simp add: Inr g)
    next
      case found: (Inr found)
      have "only_fires cf s (evaluate_alarms cf s1 ev found)"
        using one only_fires_evaluate_alarms by (rule only_fires_trans)
      from only_fires_trans [OF this Cons.IH] show ?thesis
        by (simp add: Inr g found)
    qed
  qed
qed

text \<open>
  Claim C9. Whatever the events, the alarms and the answers of the collaborators,
  \<^verbatim>\<open>evaluate_events\<close> writes no alarm state but \<^verbatim>\<open>alarm\<close>: every call of the base class's
  \<^verbatim>\<open>_refresh\<close> that it makes (the persisted write) is given the state \<^verbatim>\<open>alarm\<close>, and every
  alarm in its caches afterwards is an alarm of its caches before, under the same
  project and alarm id, or one that the storage has returned, either untouched or with
  its state set to \<^verbatim>\<open>alarm\<close>. That state is neither \<^verbatim>\<open>ok\<close> nor \<^verbatim>\<open>insufficient data\<close>.
\<close>

theorem evaluator_only_fires:
  "only_fires cf s (snd (evaluate_events cf s events)) \<and>
   ALARM \<noteq> ''ok'' \<and> ALARM \<noteq> ''insufficient data''"
  by (cases events)
     (simp_all add: evaluate_events_def only_fires_evaluate_list ALARM_def
        del: evaluate_list.simps)

theorem evaluator_only_fires_witness:
  "map_of (caches (snd (evaluate_events (demo_env 60 seconds_clock (storage_of [delete_alarm]))
      new_evaluator delete_event))) (VStr ''p1'') =
     Some \<lparr>alarms = [(''a1'', delete_alarm\<lparr>state := ''alarm''\<rparr>)], updated = 1000000\<rparr> \<and>
   (\<exists>a0. cache_origin (demo_env 60 seconds_clock (storage_of [delete_alarm])) new_evaluator
       (VStr ''p1'') ''a1'' a0 \<and> fired_from a0 (delete_alarm\<lparr>state := ''alarm''\<rparr>)) \<and>
   (\<exists>new. calls (snd (evaluate_events (demo_env 60 seconds_clock (storage_of [delete_alarm]))
      new_evaluator delete_event)) = calls new_evaluator @ new \<and> list_all writes_alarm new) \<and>
   length (calls (snd (evaluate_events (demo_env 60 seconds_clock (storage_of [delete_alarm]))
      new_evaluator delete_event))) = 2"
proof -
  let ?E = "demo_env 60 seconds_clock (storage_of [delete_alarm])"
  let ?s = "snd (evaluate_events ?E new_evaluator delete_event)"
  let ?entry = "\<lparr>alarms = [(''a1'', delete_alarm\<lparr>state := ''alarm''\<rparr>)], updated = 1000000\<rparr>"
  have c: "map_of (caches ?s) (VStr ''p1'') = Some ?entry"
    by code_simp
  have a: "map_of (alarms ?entry) ''a1'' = Some (delete_alarm\<lparr>state := ''alarm''\<rparr>)"
    by simp
  have n: "length (calls ?s) = 2"
    by code_simp
  have "only_fires ?E new_evaluator ?s"
    using evaluator_only_fires [of ?E new_evaluator delete_event] by blast
  then show ?thesis
    using c a n unfolding only_fires_def by blast
qed

end
